theory Spec2Isabelle
  imports Main
begin

section \<open>Position model\<close>

text \<open>
  The program (\<^verbatim>\<open>src/run.js\<close>) reads a FEN description into a state object
  \<^verbatim>\<open>{board, playerTurn, castling, enPassant}\<close> and lists the moves of one player.
  The owner of a board cell is one of the strings \<^verbatim>\<open>'w'\<close>, \<^verbatim>\<open>'b'\<close> or
  \<^verbatim>\<open>null\<close> (an empty square): a \<open>side option\<close>.
\<close>

datatype side = White | Black

text \<open>
  A board cell \<^verbatim>\<open>{p, rank, file, owner}\<close>: \<open>p\<close> is the lower-case piece letter
  (\<^verbatim>\<open>'x'\<close> on an empty square), \<open>rank\<close> and \<open>file\<close> are the indices of the cell.
\<close>

record cell =
  p :: char
  rank :: int
  "file" :: int
  owner :: "side option"

text \<open>The castling flags of one player, \<^verbatim>\<open>{k: bool, q: bool}\<close>.\<close>

record rights =
  k :: bool
  q :: bool

text \<open>
  The state object. \<open>castling\<close> is the object \<^verbatim>\<open>{w: {k, q}, b: {k, q}}\<close>, read as
  \<^verbatim>\<open>state.castling[player]\<close>; the field \<^verbatim>\<open>enPassant\<close> (a two-element array
  \<^verbatim>\<open>[rank, file]\<close> or \<^verbatim>\<open>null\<close>) is named \<open>enPassantSquare\<close> here, the
  name \<open>enPassant\<close> being the predicate of the source.
\<close>

record state =
  board :: "cell list list"
  playerTurn :: side
  castling :: "side \<Rightarrow> rights"
  enPassantSquare :: "(int \<times> int) option"

text \<open>
  A move record \<^verbatim>\<open>{piece, fromRank, fromFile, toRank, toFile}\<close>; the castling rule
  adds the property \<^verbatim>\<open>castle: true\<close>, which the piece moves do not have
  (\<open>None\<close>).
\<close>

record move =
  piece :: char
  fromRank :: int
  fromFile :: int
  toRank :: int
  toFile :: int
  castle :: "bool option"

section \<open>Failure\<close>

text \<open>
  JavaScript throws a \<^verbatim>\<open>TypeError\<close> when a property of \<^verbatim>\<open>undefined\<close> is read
  (an index outside an array gives \<^verbatim>\<open>undefined\<close>) and when \<^verbatim>\<open>undefined\<close> is
  called. Every function of the source that can reach such a read returns \<open>error + 'a\<close>.
\<close>

datatype error = TypeError

definition andThen :: "error + 'a \<Rightarrow> ('a \<Rightarrow> error + 'b) \<Rightarrow> error + 'b" where
  "andThen m f = (case m of Inl e \<Rightarrow> Inl e | Inr v \<Rightarrow> f v)"

text \<open>
  The expression \<^verbatim>\<open>state.board[rank][file]\<close> followed by a property read:
  \<^verbatim>\<open>state.board[rank]\<close> is \<^verbatim>\<open>undefined\<close> outside the array of rows, and so is
  \<^verbatim>\<open>row[file]\<close> outside the row; the read that follows throws.
\<close>

definition boardCell :: "state \<Rightarrow> int \<Rightarrow> int \<Rightarrow> error + cell" where
  "boardCell state r f =
     (if 0 \<le> r \<and> r < int (length (board state)) then
        (let row = board state ! nat r in
         if 0 \<le> f \<and> f < int (length row) then Inr (row ! nat f) else Inl TypeError)
      else Inl TypeError)"

section \<open>Geometry predicates\<close>

definition onBoard :: "int \<Rightarrow> int \<Rightarrow> bool" where
  "onBoard r f \<longleftrightarrow> r \<ge> 0 \<and> r \<le> 7 \<and> f \<ge> 0 \<and> f \<le> 7"

text \<open>\<^verbatim>\<open>&&\<close> does not evaluate its right operand when the left one is false.\<close>

definition pieceAt :: "int \<Rightarrow> int \<Rightarrow> state \<Rightarrow> error + bool" where
  "pieceAt r f state =
     (if onBoard r f then andThen (boardCell state r f) (\<lambda>c. Inr (owner c \<noteq> None))
      else Inr False)"

definition ownedPieceAt :: "int \<Rightarrow> int \<Rightarrow> side option \<Rightarrow> state \<Rightarrow> error + bool" where
  "ownedPieceAt r f player state =
     (if onBoard r f then andThen (boardCell state r f) (\<lambda>c. Inr (owner c = player))
      else Inr False)"

definition movableSpace :: "int \<Rightarrow> int \<Rightarrow> side option \<Rightarrow> state \<Rightarrow> error + bool" where
  "movableSpace r f player state =
     (if onBoard r f then
        andThen (boardCell state r f) (\<lambda>c. Inr (owner c = None \<or> owner c \<noteq> player))
      else Inr False)"

definition enPassant :: "int \<Rightarrow> int \<Rightarrow> state \<Rightarrow> bool" where
  "enPassant r f state =
     (case enPassantSquare state of
        None \<Rightarrow> False
      | Some ep \<Rightarrow> fst ep = r \<and> snd ep = f)"

section \<open>The pawn rule\<close>

text \<open>
  \<^verbatim>\<open>rules.p\<close>. The moves are pushed in the order of the source; each condition is
  evaluated as JavaScript does, left to right and short-circuiting, so that a board read
  happens in the model exactly where it happens in the program.
\<close>

definition rules_p :: "cell \<Rightarrow> state \<Rightarrow> error + (int \<times> int) list" where
  "rules_p pc state =
     (let rank = cell.rank pc; file = cell.file pc;
          side = (if owner pc = Some White then - 1 else 1);
          opponent = (if owner pc = Some White then Some Black else Some White)
      in
        andThen (movableSpace (rank + side) file opponent state) (\<lambda>push.
        let moves1 = (if push then [(rank + side, file)] else []) in
        andThen (if side = 1 \<and> rank = 1
                 then andThen (pieceAt (rank + 1) file state) (\<lambda>b. Inr (\<not> b))
                 else Inr False) (\<lambda>down2.
        andThen (if down2 then Inr False
                 else if side = - 1 \<and> rank = 6
                 then andThen (pieceAt (rank - 1) file state) (\<lambda>b. Inr (\<not> b))
                 else Inr False) (\<lambda>up2.
        let moves2 = (if down2 then moves1 @ [(rank + 2, file)]
                      else if up2 then moves1 @ [(rank - 2, file)] else moves1) in
        andThen (andThen (ownedPieceAt (rank + side) (file + 1) opponent state)
                   (\<lambda>b. Inr (b \<or> enPassant (rank + side) (file + 1) state))) (\<lambda>right.
        let moves3 = (if right then moves2 @ [(rank + side, file + 1)] else moves2) in
        andThen (andThen (ownedPieceAt (rank + side) (file - 1) opponent state)
                   (\<lambda>b. Inr (b \<or> enPassant (rank + side) (file - 1) state))) (\<lambda>left.
        Inr (if left then moves3 @ [(rank + side, file - 1)] else moves3)))))))"

section \<open>The castling rule\<close>

definition getCastlingOptions :: "side \<Rightarrow> state \<Rightarrow> error + move list" where
  "getCastlingOptions player state =
     (let castling = castling state player;
          rank = (if player = White then 7 else 0)
      in
        andThen (if k castling
                 then andThen (pieceAt rank 5 state) (\<lambda>b5.
                        if b5 then Inr False
                        else andThen (pieceAt rank 6 state) (\<lambda>b6. Inr (\<not> b6)))
                 else Inr False) (\<lambda>kingside.
        let moves1 =
          (if kingside then
             [\<lparr>piece = CHR ''k'', fromRank = rank, fromFile = 4, toRank = rank, toFile = 6,
               castle = Some True\<rparr>,
              \<lparr>piece = CHR ''r'', fromRank = rank, fromFile = 7, toRank = rank, toFile = 5,
               castle = Some True\<rparr>]
           else []) in
        andThen (if q castling
                 then andThen (pieceAt rank 1 state) (\<lambda>b1.
                        if b1 then Inr False
                        else andThen (pieceAt rank 2 state) (\<lambda>b2.
                          if b2 then Inr False
                          else andThen (pieceAt rank 3 state) (\<lambda>b3. Inr (\<not> b3))))
                 else Inr False) (\<lambda>queenside.
        Inr (if queenside then
               moves1 @
               [\<lparr>piece = CHR ''k'', fromRank = rank, fromFile = 4, toRank = rank, toFile = 2,
                 castle = Some True\<rparr>,
                \<lparr>piece = CHR ''r'', fromRank = rank, fromFile = 0, toRank = rank, toFile = 3,
                 castle = Some True\<rparr>]
             else moves1))))"

section \<open>Strings of direction vectors\<close>

text \<open>
  The leaper and the rider mirror their directions through a \<^verbatim>\<open>Set\<close> of strings:
  each direction array is written with \<^verbatim>\<open>toString\<close> (the numbers in decimal,
  joined by a comma) and read back with \<^verbatim>\<open>split(',')\<close> and \<^verbatim>\<open>parseInt\<close>.
  The components are integers. The product \<^verbatim>\<open>0 * -1\<close> is negative zero in
  JavaScript, which \<^verbatim>\<open>toString\<close> writes as \<^verbatim>\<open>0\<close> like zero itself, so an
  \<open>int\<close> carries all that reaches the string.
\<close>

definition digitChar :: "nat \<Rightarrow> char" where
  "digitChar d = ''0123456789'' ! d"

fun natToString :: "nat \<Rightarrow> string" where
  "natToString n =
     (if n < 10 then [digitChar n] else natToString (n div 10) @ [digitChar (n mod 10)])"

definition numToString :: "int \<Rightarrow> string" where
  "numToString n = (if n < 0 then CHR ''-'' # natToString (nat (- n)) else natToString (nat n))"

text \<open>\<^verbatim>\<open>[a, b].toString()\<close>.\<close>

definition dirToString :: "int \<times> int \<Rightarrow> string" where
  "dirToString dir = numToString (fst dir) @ '','' @ numToString (snd dir)"

text \<open>\<^verbatim>\<open>str.split(',')\<close>: the pieces between the separators, at least one.\<close>

fun splitOn :: "char \<Rightarrow> string \<Rightarrow> string list" where
  "splitOn c [] = [[]]"
| "splitOn c (x # xs) =
     (if x = c then [] # splitOn c xs
      else (case splitOn c xs of [] \<Rightarrow> [[x]] | w # ws \<Rightarrow> (x # w) # ws))"

definition digitOf :: "char \<Rightarrow> nat option" where
  "digitOf c =
     map_of [(CHR ''0'', 0), (CHR ''1'', 1), (CHR ''2'', 2), (CHR ''3'', 3), (CHR ''4'', 4),
             (CHR ''5'', 5), (CHR ''6'', 6), (CHR ''7'', 7), (CHR ''8'', 8), (CHR ''9'', 9)] c"

fun parseDigits :: "string \<Rightarrow> nat \<Rightarrow> nat" where
  "parseDigits [] acc = acc"
| "parseDigits (c # cs) acc =
     (case digitOf c of None \<Rightarrow> acc | Some d \<Rightarrow> parseDigits cs (acc * 10 + d))"

text \<open>
  \<^verbatim>\<open>parseInt(str)\<close> on a string with an optional sign: the longest prefix of decimal
  digits, and \<^verbatim>\<open>NaN\<close> (\<open>None\<close>) when there is no digit. The leading white space and
  the prefix \<^verbatim>\<open>0x\<close> that \<^verbatim>\<open>parseInt\<close> also accepts are left out: the strings
  read here are pieces of what \<open>dirToString\<close> wrote.
\<close>

definition parseInt :: "string \<Rightarrow> int option" where
  "parseInt str =
     (let neg = (str \<noteq> [] \<and> hd str = CHR ''-'');
          body = (if str \<noteq> [] \<and> (hd str = CHR ''-'' \<or> hd str = CHR ''+'') then tl str else str)
      in if body \<noteq> [] \<and> digitOf (hd body) \<noteq> None
         then Some (if neg then - int (parseDigits body 0) else int (parseDigits body 0))
         else None)"

text \<open>
  \<^verbatim>\<open>dirStr.split(',').map(dir => parseInt(dir))\<close>, of which the callers read the
  elements 0 and 1. A missing element is \<^verbatim>\<open>undefined\<close> and an unreadable one is
  \<^verbatim>\<open>NaN\<close>; added to a coordinate both give \<^verbatim>\<open>NaN\<close>, for which every comparison
  of \<open>onBoard\<close> is false. \<open>None\<close> stands for such a direction.
\<close>

definition parseDir :: "string \<Rightarrow> (int \<times> int) option" where
  "parseDir dirStr =
     (case map parseInt (splitOn CHR '','' dirStr) of
        Some a # Some b # _ \<Rightarrow> Some (a, b)
      | _ \<Rightarrow> None)"

text \<open>\<^verbatim>\<open>set.add(str)\<close> on a \<^verbatim>\<open>Set\<close>, which iterates in insertion order.\<close>

definition setAdd :: "string list \<Rightarrow> string \<Rightarrow> string list" where
  "setAdd s str = (if str \<in> set s then s else s @ [str])"

text \<open>The \<^verbatim>\<open>reduce\<close> that mirrors every direction, and \<^verbatim>\<open>Array.from(set.values())\<close>.\<close>

definition symmetricalDirs :: "(int \<times> int) list \<Rightarrow> string list" where
  "symmetricalDirs dirs =
     foldl (\<lambda>s dir.
        setAdd (setAdd (setAdd (setAdd s
          (dirToString dir))
          (dirToString (fst dir * - 1, snd dir)))
          (dirToString (fst dir, snd dir * - 1)))
          (dirToString (fst dir * - 1, snd dir * - 1))) [] dirs"

section \<open>Leapers\<close>

text \<open>\<^verbatim>\<open>Array.prototype.filter\<close> with a predicate that may throw.\<close>

fun filterE :: "('a \<Rightarrow> error + bool) \<Rightarrow> 'a list \<Rightarrow> error + 'a list" where
  "filterE P [] = Inr []"
| "filterE P (x # xs) =
     andThen (P x) (\<lambda>b. andThen (filterE P xs) (\<lambda>ys. Inr (if b then x # ys else ys)))"

definition leaper :: "(int \<times> int) list \<Rightarrow> cell \<Rightarrow> state \<Rightarrow> error + (int \<times> int) list" where
  "leaper dirs pc state =
     (let rank = cell.rank pc; file = cell.file pc in
      andThen
        (filterE
           (\<lambda>dir. case dir of
                     None \<Rightarrow> Inr False
                   | Some d \<Rightarrow> movableSpace (rank + fst d) (file + snd d) (owner pc) state)
           (map parseDir (symmetricalDirs dirs)))
        (\<lambda>validDirs.
           Inr (concat (map (\<lambda>dir. case dir of
                                      None \<Rightarrow> []
                                    | Some d \<Rightarrow> [(rank + fst d, file + snd d)]) validDirs))))"

section \<open>Riders\<close>

text \<open>
  A call that may throw and may run forever: \<open>None\<close> when it does not return,
  \<open>Some (Inl e)\<close> when it throws, \<open>Some (Inr v)\<close> when it returns \<open>v\<close>.
\<close>

type_synonym 'a comp = "(error + 'a) option"

definition andThenC :: "'a comp \<Rightarrow> ('a \<Rightarrow> 'b comp) \<Rightarrow> 'b comp" where
  "andThenC m f = (case m of None \<Rightarrow> None | Some (Inl e) \<Rightarrow> Some (Inl e) | Some (Inr v) \<Rightarrow> f v)"

text \<open>
  The \<^verbatim>\<open>while\<close> loop of \<^verbatim>\<open>getAllSpacesInDir\<close>, on the variables \<open>pos\<close> and
  \<open>spaces\<close>; it returns both as the loop leaves them.
\<close>

partial_function (option) walk ::
  "state \<Rightarrow> int \<times> int \<Rightarrow> int \<times> int \<Rightarrow> (int \<times> int) list
     \<Rightarrow> (error + (int \<times> int) \<times> (int \<times> int) list) option" where
  "walk state dir pos spaces =
     (let cond = (if onBoard (fst pos) (snd pos)
                  then andThen (pieceAt (fst pos) (snd pos) state) (\<lambda>b. Inr (\<not> b))
                  else Inr False)
      in if cond = Inr True
         then walk state dir (fst pos + fst dir, snd pos + snd dir) (spaces @ [pos])
         else if cond = Inr False then Some (Inr (pos, spaces))
         else Some (Inl TypeError))"

declare walk.simps [code]

definition getAllSpacesInDir ::
  "state \<Rightarrow> int \<Rightarrow> int \<Rightarrow> side option \<Rightarrow> (int \<times> int) option \<Rightarrow> (int \<times> int) list comp" where
  "getAllSpacesInDir state r f opponent dir =
     (case dir of
        None \<Rightarrow> Some (Inr [])
      | Some d \<Rightarrow>
          andThenC (walk state d (r + fst d, f + snd d) []) (\<lambda>(pos, spaces).
            Some (andThen (ownedPieceAt (fst pos) (snd pos) opponent state) (\<lambda>b.
                    Inr (if b then spaces @ [pos] else spaces)))))"

text \<open>\<^verbatim>\<open>xs.reduce((arr, x) => arr.concat(g(x)), init)\<close>.\<close>

fun reduceConcat :: "('a \<Rightarrow> 'b list comp) \<Rightarrow> 'b list \<Rightarrow> 'a list \<Rightarrow> 'b list comp" where
  "reduceConcat g arr [] = Some (Inr arr)"
| "reduceConcat g arr (x # xs) = andThenC (g x) (\<lambda>ys. reduceConcat g (arr @ ys) xs)"

definition rider :: "(int \<times> int) list \<Rightarrow> cell \<Rightarrow> state \<Rightarrow> (int \<times> int) list comp" where
  "rider dirs pc state =
     (let rank = cell.rank pc; file = cell.file pc;
          opponent = (if owner pc = Some White then Some Black else Some White)
      in reduceConcat (getAllSpacesInDir state rank file opponent) []
           (map parseDir (symmetricalDirs dirs)))"

section \<open>The rule table and the aggregator\<close>

text \<open>
  \<^verbatim>\<open>rules[piece.p]\<close>: the rule of a piece letter, \<^verbatim>\<open>undefined\<close> (\<open>None\<close>) for
  any other letter.
\<close>

definition rules :: "char \<Rightarrow> (cell \<Rightarrow> state \<Rightarrow> (int \<times> int) list comp) option" where
  "rules c =
     (if c = CHR ''p'' then Some (\<lambda>pc state. Some (rules_p pc state))
      else if c = CHR ''n'' then Some (\<lambda>pc state. Some (leaper [(2, 1), (1, 2)] pc state))
      else if c = CHR ''r'' then Some (rider [(1, 0), (0, 1)])
      else if c = CHR ''b'' then Some (rider [(1, 1)])
      else if c = CHR ''q'' then Some (rider [(1, 0), (0, 1), (1, 1)])
      else if c = CHR ''k'' then Some (\<lambda>pc state. Some (leaper [(1, 0), (0, 1), (1, 1)] pc state))
      else None)"

definition getOptionsForPiece :: "cell \<Rightarrow> state \<Rightarrow> move list comp" where
  "getOptionsForPiece pc state =
     (case rules (p pc) of
        None \<Rightarrow> Some (Inl TypeError)
      | Some rule \<Rightarrow>
          andThenC (rule pc state) (\<lambda>movesForPiece.
            Some (Inr (map (\<lambda>mv. \<lparr>piece = p pc, fromRank = rank pc, fromFile = file pc,
                                   toRank = fst mv, toFile = snd mv, castle = None\<rparr>)
                        movesForPiece))))"

text \<open>The flattened piece list of a player, row by row.\<close>

definition playersPieces :: "state \<Rightarrow> side \<Rightarrow> cell list" where
  "playersPieces state player =
     foldl (\<lambda>pre row. pre @ filter (\<lambda>col. owner col = Some player) row) [] (board state)"

definition getOptionsForPlayer :: "state \<Rightarrow> side \<Rightarrow> move list comp" where
  "getOptionsForPlayer state player =
     andThenC (reduceConcat (\<lambda>pc. getOptionsForPiece pc state) [] (playersPieces state player))
       (\<lambda>options.
          andThenC (Some (getCastlingOptions player state)) (\<lambda>castles.
            Some (Inr (options @ castles))))"

section \<open>Boards\<close>

text \<open>
  The board as \<^verbatim>\<open>importFile\<close> builds it from the rows of the placement field, once
  the digits are replaced by that many \<^verbatim>\<open>x\<close>: upper-case letters are White's,
  every other letter but \<^verbatim>\<open>x\<close> is Black's, and the letter is stored in lower case.
\<close>

definition toLowerCase :: "char \<Rightarrow> char" where
  "toLowerCase c =
     (case map_of (zip ''ABCDEFGHIJKLMNOPQRSTUVWXYZ'' ''abcdefghijklmnopqrstuvwxyz'') c of
        None \<Rightarrow> c
      | Some l \<Rightarrow> l)"

definition cellOf :: "int \<Rightarrow> int \<Rightarrow> char \<Rightarrow> cell" where
  "cellOf r f pieceChar =
     \<lparr>p = toLowerCase pieceChar, rank = r, file = f,
      owner = (if pieceChar \<noteq> CHR ''x''
               then (if pieceChar \<in> set ''PNBRQK'' then Some White else Some Black)
               else None)\<rparr>"

definition boardOfRows :: "string list \<Rightarrow> cell list list" where
  "boardOfRows rows =
     map (\<lambda>(r, row). map (\<lambda>(f, pieceChar). cellOf (int r) (int f) pieceChar)
                         (zip [0..<length row] row))
         (zip [0..<length rows] rows)"

section \<open>Notions of the specification\<close>

text \<open>
  The definitions from here on are not translations of source functions: they are the
  notions in which the theorems below state what the functions above compute.

  The position of the specification has a grid of eight rows of eight cells; this is
  what \<open>onBoard\<close> takes for granted when it lets a coordinate reach the board.
\<close>

definition wf_board :: "state \<Rightarrow> bool" where
  "wf_board state \<longleftrightarrow>
     length (board state) = 8 \<and> (\<forall>row \<in> set (board state). length row = 8)"

text \<open>The owner of the cell at a coordinate that is on the board.\<close>

definition ownerAt :: "state \<Rightarrow> int \<Rightarrow> int \<Rightarrow> side option" where
  "ownerAt state r f = owner (board state ! nat r ! nat f)"

definition opponentOf :: "side option \<Rightarrow> side option" where
  "opponentOf own = (if own = Some White then Some Black else Some White)"

definition forward :: "side option \<Rightarrow> int" where
  "forward own = (if own = Some White then - 1 else 1)"

text \<open>
  What the pawn rule computes on a grid of eight by eight, with the board reads written
  as \<open>ownerAt\<close>: the four candidates in the order of the source.
\<close>

definition pawnDestinations :: "cell \<Rightarrow> state \<Rightarrow> (int \<times> int) list" where
  "pawnDestinations pc state =
     (let r = rank pc; f = file pc; s = forward (owner pc); opp = opponentOf (owner pc) in
        (if onBoard (r + s) f \<and> ownerAt state (r + s) f \<noteq> opp then [(r + s, f)] else []) @
        (if (s = 1 \<and> r = 1) \<and> \<not> (onBoard (r + 1) f \<and> ownerAt state (r + 1) f \<noteq> None)
         then [(r + 2, f)]
         else if (s = - 1 \<and> r = 6) \<and> \<not> (onBoard (r - 1) f \<and> ownerAt state (r - 1) f \<noteq> None)
         then [(r - 2, f)] else []) @
        (if onBoard (r + s) (f + 1) \<and> ownerAt state (r + s) (f + 1) = opp
            \<or> enPassant (r + s) (f + 1) state
         then [(r + s, f + 1)] else []) @
        (if onBoard (r + s) (f - 1) \<and> ownerAt state (r + s) (f - 1) = opp
            \<or> enPassant (r + s) (f - 1) state
         then [(r + s, f - 1)] else []))"

text \<open>The four candidates of \<open>pawnDestinations\<close>, one by one.\<close>

definition pawnPush :: "cell \<Rightarrow> state \<Rightarrow> (int \<times> int) list" where
  "pawnPush pc state =
     (if onBoard (rank pc + forward (owner pc)) (file pc) \<and>
         ownerAt state (rank pc + forward (owner pc)) (file pc) \<noteq> opponentOf (owner pc)
      then [(rank pc + forward (owner pc), file pc)] else [])"

definition pawnDouble :: "cell \<Rightarrow> state \<Rightarrow> (int \<times> int) list" where
  "pawnDouble pc state =
     (if (forward (owner pc) = 1 \<and> rank pc = 1) \<and>
         \<not> (onBoard (rank pc + 1) (file pc) \<and> ownerAt state (rank pc + 1) (file pc) \<noteq> None)
      then [(rank pc + 2, file pc)]
      else if (forward (owner pc) = - 1 \<and> rank pc = 6) \<and>
         \<not> (onBoard (rank pc - 1) (file pc) \<and> ownerAt state (rank pc - 1) (file pc) \<noteq> None)
      then [(rank pc - 2, file pc)] else [])"

definition pawnCapture :: "cell \<Rightarrow> state \<Rightarrow> int \<Rightarrow> (int \<times> int) list" where
  "pawnCapture pc state df =
     (if onBoard (rank pc + forward (owner pc)) (file pc + df) \<and>
         ownerAt state (rank pc + forward (owner pc)) (file pc + df) = opponentOf (owner pc)
         \<or> enPassant (rank pc + forward (owner pc)) (file pc + df) state
      then [(rank pc + forward (owner pc), file pc + df)] else [])"

text \<open>The home rank of a side and the records of a castling move, in the specification's words.\<close>

definition homeRank :: "side \<Rightarrow> int" where
  "homeRank player = (if player = White then 7 else 0)"

definition castleMove :: "char \<Rightarrow> int \<Rightarrow> int \<Rightarrow> int \<Rightarrow> move" where
  "castleMove c r fromF toF =
     \<lparr>piece = c, fromRank = r, fromFile = fromF, toRank = r, toFile = toF, castle = Some True\<rparr>"

subsection \<open>Leaper targets\<close>

text \<open>An offset of a leaper leads to a square of the board that its own side does not hold.\<close>

definition leaperTarget :: "cell \<Rightarrow> state \<Rightarrow> int \<times> int \<Rightarrow> bool" where
  "leaperTarget pc state d \<longleftrightarrow>
     onBoard (rank pc + fst d) (file pc + snd d) \<and>
     (ownerAt state (rank pc + fst d) (file pc + snd d) = None \<or>
      ownerAt state (rank pc + fst d) (file pc + snd d) \<noteq> owner pc)"

subsection \<open>Rays\<close>

text \<open>
  The slider rule in the specification's words. \<open>rayFrom pos d n\<close> lists \<open>n\<close> squares
  from \<open>pos\<close> in steps of \<open>d\<close>; the ray of a piece at \<open>(r, f)\<close> is the eight squares
  that follow its own. A square is empty when it is on the board and holds no piece.
  \<open>sliderRay\<close> is the empty squares before the first square that is not empty, and
  that square too if it is on the board and held by \<open>opp\<close>.
\<close>

fun rayFrom :: "int \<times> int \<Rightarrow> int \<times> int \<Rightarrow> nat \<Rightarrow> (int \<times> int) list" where
  "rayFrom pos d 0 = []"
| "rayFrom pos d (Suc n) = pos # rayFrom (fst pos + fst d, snd pos + snd d) d n"

definition raySquares :: "int \<Rightarrow> int \<Rightarrow> int \<times> int \<Rightarrow> (int \<times> int) list" where
  "raySquares r f d = rayFrom (r + fst d, f + snd d) d 8"

definition emptySquare :: "state \<Rightarrow> int \<times> int \<Rightarrow> bool" where
  "emptySquare state sq \<longleftrightarrow> onBoard (fst sq) (snd sq) \<and> ownerAt state (fst sq) (snd sq) = None"

definition heldBy :: "state \<Rightarrow> side option \<Rightarrow> int \<times> int \<Rightarrow> bool" where
  "heldBy state player sq \<longleftrightarrow>
     onBoard (fst sq) (snd sq) \<and> ownerAt state (fst sq) (snd sq) = player"

definition sliderRay :: "state \<Rightarrow> int \<Rightarrow> int \<Rightarrow> side option \<Rightarrow> int \<times> int \<Rightarrow> (int \<times> int) list" where
  "sliderRay state r f opp d =
     (let ray = raySquares r f d in
      takeWhile (emptySquare state) ray @
      filter (heldBy state opp) (take 1 (dropWhile (emptySquare state) ray)))"

subsection \<open>Example positions\<close>

definition noRights :: "side \<Rightarrow> rights" where
  "noRights = (\<lambda>player. \<lparr>k = False, q = False\<rparr>)"

definition allRights :: "side \<Rightarrow> rights" where
  "allRights = (\<lambda>player. \<lparr>k = True, q = True\<rparr>)"

text \<open>\<^verbatim>\<open>rnbqkbnr/pppppppp/8/8/8/8/PPPPPPPP/RNBQKBNR w KQkq -\<close>\<close>

definition startPosition :: state where
  "startPosition =
     \<lparr>board = boardOfRows
        [''rnbqkbnr'', ''pppppppp'', ''xxxxxxxx'', ''xxxxxxxx'',
         ''xxxxxxxx'', ''xxxxxxxx'', ''PPPPPPPP'', ''RNBQKBNR''],
      playerTurn = White, castling = allRights, enPassantSquare = None\<rparr>"

text \<open>\<^verbatim>\<open>r3k2r/8/8/8/8/8/8/R3K2R w KQkq -\<close>\<close>

definition castlePosition :: state where
  "castlePosition =
     \<lparr>board = boardOfRows
        [''rxxxkxxr'', ''xxxxxxxx'', ''xxxxxxxx'', ''xxxxxxxx'',
         ''xxxxxxxx'', ''xxxxxxxx'', ''xxxxxxxx'', ''RxxxKxxR''],
      playerTurn = White, castling = allRights, enPassantSquare = None\<rparr>"

text \<open>\<^verbatim>\<open>8/8/8/8/8/8/8/8 w K -\<close>: an empty board on which White may still castle kingside.\<close>

definition emptyKingside :: state where
  "emptyKingside =
     \<lparr>board = boardOfRows
        [''xxxxxxxx'', ''xxxxxxxx'', ''xxxxxxxx'', ''xxxxxxxx'',
         ''xxxxxxxx'', ''xxxxxxxx'', ''xxxxxxxx'', ''xxxxxxxx''],
      playerTurn = White,
      castling = (\<lambda>player. if player = White then \<lparr>k = True, q = False\<rparr>
                             else \<lparr>k = False, q = False\<rparr>),
      enPassantSquare = None\<rparr>"

text \<open>\<^verbatim>\<open>4k3/8/8/8/8/8/8/8 w - -\<close>: White has no piece and no castling right.\<close>

definition loneBlackKing :: state where
  "loneBlackKing =
     \<lparr>board = boardOfRows
        [''xxxxkxxx'', ''xxxxxxxx'', ''xxxxxxxx'', ''xxxxxxxx'',
         ''xxxxxxxx'', ''xxxxxxxx'', ''xxxxxxxx'', ''xxxxxxxx''],
      playerTurn = White, castling = noRights, enPassantSquare = None\<rparr>"

text \<open>\<^verbatim>\<open>4k3/8/8/8/8/4N3/4P3/4K3 w - -\<close>: a white knight stands in front of the white pawn.\<close>

definition blockedPawn :: state where
  "blockedPawn =
     \<lparr>board = boardOfRows
        [''xxxxkxxx'', ''xxxxxxxx'', ''xxxxxxxx'', ''xxxxxxxx'',
         ''xxxxxxxx'', ''xxxxNxxx'', ''xxxxPxxx'', ''xxxxKxxx''],
      playerTurn = White, castling = noRights, enPassantSquare = None\<rparr>"

text \<open>\<^verbatim>\<open>4k3/8/8/8/n7/8/P7/4K3 w - -\<close>: a black knight stands two squares in front of the
  white pawn, the square between them is empty.\<close>

definition blockedDouble :: state where
  "blockedDouble =
     \<lparr>board = boardOfRows
        [''xxxxkxxx'', ''xxxxxxxx'', ''xxxxxxxx'', ''xxxxxxxx'',
         ''nxxxxxxx'', ''xxxxxxxx'', ''Pxxxxxxx'', ''xxxxKxxx''],
      playerTurn = White, castling = noRights, enPassantSquare = None\<rparr>"

text \<open>\<^verbatim>\<open>4k3/8/3p4/8/3Q1P2/8/8/4K3 w - -\<close>: a white queen with a black pawn two squares up its
  file and a white pawn two squares along its rank.\<close>

definition queenPosition :: state where
  "queenPosition =
     \<lparr>board = boardOfRows
        [''xxxxkxxx'', ''xxxxxxxx'', ''xxxpxxxx'', ''xxxxxxxx'',
         ''xxxQxPxx'', ''xxxxxxxx'', ''xxxxxxxx'', ''xxxxKxxx''],
      playerTurn = White, castling = noRights, enPassantSquare = None\<rparr>"

text \<open>\<^verbatim>\<open>4k3/8/8/8/3pP3/8/8/4K3 b - e3\<close>: White has just played the pawn from e2 to e4,
  past the black pawn on d4; the en-passant square is e3, rank 5 and file 4.\<close>

definition enPassantPosition :: state where
  "enPassantPosition =
     \<lparr>board = boardOfRows
        [''xxxxkxxx'', ''xxxxxxxx'', ''xxxxxxxx'', ''xxxxxxxx'',
         ''xxxpPxxx'', ''xxxxxxxx'', ''xxxxxxxx'', ''xxxxKxxx''],
      playerTurn = Black, castling = noRights, enPassantSquare = Some (5, 4)\<rparr>"

text \<open>A piece move as \<^verbatim>\<open>getOptionsForPiece\<close> writes it, without the property \<^verbatim>\<open>castle\<close>.\<close>

definition pieceMove :: "char \<Rightarrow> int \<Rightarrow> int \<Rightarrow> int \<Rightarrow> int \<Rightarrow> move" where
  "pieceMove c r f r' f' =
     \<lparr>piece = c, fromRank = r, fromFile = f, toRank = r', toFile = f', castle = None\<rparr>"

text \<open>
  The moves the specification lists for White in the starting position: for each of the
  eight pawns its single and its double push, then the two moves of each knight.
\<close>

definition startMoves :: "move list" where
  "startMoves =
     concat (map (\<lambda>f. [pieceMove CHR ''p'' 6 f 5 f, pieceMove CHR ''p'' 6 f 4 f])
               [0, 1, 2, 3, 4, 5, 6, 7]) @
     [pieceMove CHR ''n'' 7 1 5 2, pieceMove CHR ''n'' 7 1 5 0,
      pieceMove CHR ''n'' 7 6 5 7, pieceMove CHR ''n'' 7 6 5 5]"

section \<open>The board reads\<close>

lemma toLowerCase_pieces:
  "toLowerCase CHR ''x'' = CHR ''x''"
  "toLowerCase CHR ''P'' = CHR ''p''" "toLowerCase CHR ''p'' = CHR ''p''"
  "toLowerCase CHR ''N'' = CHR ''n''" "toLowerCase CHR ''n'' = CHR ''n''"
  "toLowerCase CHR ''B'' = CHR ''b''" "toLowerCase CHR ''b'' = CHR ''b''"
  "toLowerCase CHR ''R'' = CHR ''r''" "toLowerCase CHR ''r'' = CHR ''r''"
  "toLowerCase CHR ''Q'' = CHR ''q''" "toLowerCase CHR ''q'' = CHR ''q''"
  "toLowerCase CHR ''K'' = CHR ''k''" "toLowerCase CHR ''k'' = CHR ''k''"
  by (simp_all add: toLowerCase_def)

lemma boardOfRows_nth:
  "r < length rows \<Longrightarrow> f < length (rows ! r) \<Longrightarrow>
   boardOfRows rows ! r ! f = cellOf (int r) (int f) (rows ! r ! f)"
  by (simp add: boardOfRows_def)

lemma wf_board_boardOfRows:
  assumes "length rows = 8" and "\<forall>row \<in> set rows. length row = 8"
  shows "wf_board \<lparr>board = boardOfRows rows, playerTurn = t, castling = c, enPassantSquare = e\<rparr>"
  using assms by (auto simp: wf_board_def boardOfRows_def dest: set_zip_rightD)

lemma ownerAt_boardOfRows:
  assumes "0 \<le> r" "0 \<le> f" "nat r < length rows" "nat f < length (rows ! nat r)"
  shows "ownerAt \<lparr>board = boardOfRows rows, playerTurn = t, castling = c, enPassantSquare = e\<rparr> r f
         = owner (cellOf r f (rows ! nat r ! nat f))"
  using assms by (simp add: ownerAt_def boardOfRows_nth)

lemma boardCell_wf:
  "wf_board state \<Longrightarrow> onBoard r f \<Longrightarrow> boardCell state r f = Inr (board state ! nat r ! nat f)"
  unfolding wf_board_def onBoard_def boardCell_def
  by (auto simp: Let_def)

lemma pieceAt_wf:
  "wf_board state \<Longrightarrow> pieceAt r f state = Inr (onBoard r f \<and> ownerAt state r f \<noteq> None)"
  by (simp add: pieceAt_def boardCell_wf andThen_def ownerAt_def)

lemma ownedPieceAt_wf:
  "wf_board state \<Longrightarrow>
   ownedPieceAt r f player state = Inr (onBoard r f \<and> ownerAt state r f = player)"
  by (simp add: ownedPieceAt_def boardCell_wf andThen_def ownerAt_def)

lemma movableSpace_wf:
  "wf_board state \<Longrightarrow>
   movableSpace r f player state =
     Inr (onBoard r f \<and> (ownerAt state r f = None \<or> ownerAt state r f \<noteq> player))"
  by (simp add: movableSpace_def boardCell_wf andThen_def ownerAt_def)


lemma andThenC_simps:
  "andThenC None g = None" "andThenC (Some (Inl e)) g = Some (Inl e)"
  "andThenC (Some (Inr v)) g = g v"
  by (simp_all add: andThenC_def)

lemma wf_examples:
  "wf_board startPosition" "wf_board castlePosition" "wf_board emptyKingside"
  "wf_board loneBlackKing" "wf_board blockedPawn" "wf_board blockedDouble"
  "wf_board queenPosition" "wf_board enPassantPosition"
  unfolding startPosition_def castlePosition_def emptyKingside_def loneBlackKing_def
    blockedPawn_def blockedDouble_def queenPosition_def enPassantPosition_def
  by (rule wf_board_boardOfRows; simp)+

lemmas board_eval = ownerAt_boardOfRows cellOf_def toLowerCase_pieces

section \<open>The pawn rule on a grid of eight by eight\<close>

lemma pawn_generic:
  "andThen (Inr A) (\<lambda>push. let moves1 = (if push then [x] else []) in
     andThen (if g1 then andThen (Inr D) (\<lambda>b. Inr (\<not> b)) else Inr False) (\<lambda>down2.
     andThen (if down2 then Inr False
              else if g2 then andThen (Inr U) (\<lambda>b. Inr (\<not> b)) else Inr False) (\<lambda>up2.
     let moves2 = (if down2 then moves1 @ [y] else if up2 then moves1 @ [z] else moves1) in
     andThen (andThen (Inr R0) (\<lambda>b. Inr (b \<or> e1))) (\<lambda>right.
     let moves3 = (if right then moves2 @ [u] else moves2) in
     andThen (andThen (Inr L0) (\<lambda>b. Inr (b \<or> e2))) (\<lambda>left.
     (Inr (if left then moves3 @ [v] else moves3) :: error + 'a list))))))
   = Inr ((if A then [x] else []) @
          (if g1 \<and> \<not> D then [y] else if g2 \<and> \<not> U then [z] else []) @
          (if R0 \<or> e1 then [u] else []) @ (if L0 \<or> e2 then [v] else []))"
  by (simp add: andThen_def Let_def)

lemma rules_p_wf:
  assumes "wf_board state"
  shows "rules_p pc state = Inr (pawnDestinations pc state)"
proof -
  have "rules_p pc state = Inr (
     (if onBoard (rank pc + forward (owner pc)) (file pc) \<and>
         (ownerAt state (rank pc + forward (owner pc)) (file pc) = None \<or>
          ownerAt state (rank pc + forward (owner pc)) (file pc) \<noteq> opponentOf (owner pc))
      then [(rank pc + forward (owner pc), file pc)] else []) @
     (if (forward (owner pc) = 1 \<and> rank pc = 1) \<and>
          \<not> (onBoard (rank pc + 1) (file pc) \<and> ownerAt state (rank pc + 1) (file pc) \<noteq> None)
      then [(rank pc + 2, file pc)]
      else if (forward (owner pc) = - 1 \<and> rank pc = 6) \<and>
          \<not> (onBoard (rank pc - 1) (file pc) \<and> ownerAt state (rank pc - 1) (file pc) \<noteq> None)
      then [(rank pc - 2, file pc)] else []) @
     (if (onBoard (rank pc + forward (owner pc)) (file pc + 1) \<and>
          ownerAt state (rank pc + forward (owner pc)) (file pc + 1) = opponentOf (owner pc)) \<or>
         enPassant (rank pc + forward (owner pc)) (file pc + 1) state
      then [(rank pc + forward (owner pc), file pc + 1)] else []) @
     (if (onBoard (rank pc + forward (owner pc)) (file pc - 1) \<and>
          ownerAt state (rank pc + forward (owner pc)) (file pc - 1) = opponentOf (owner pc)) \<or>
         enPassant (rank pc + forward (owner pc)) (file pc - 1) state
      then [(rank pc + forward (owner pc), file pc - 1)] else []))"
    unfolding rules_p_def forward_def [symmetric] opponentOf_def [symmetric]
    apply (subst Let_def, subst Let_def, subst Let_def, subst Let_def)
    apply (simp only: movableSpace_wf [OF assms] pieceAt_wf [OF assms] ownedPieceAt_wf [OF assms])
    apply (rule pawn_generic)
    done
  also have "\<dots> = Inr (pawnDestinations pc state)"
  proof -
    have A: "\<And>x. (x = None \<or> x \<noteq> opponentOf (owner pc)) = (x \<noteq> opponentOf (owner pc))"
      by (auto simp: opponentOf_def)
    show ?thesis
      by (simp only: pawnDestinations_def Let_def A)
  qed
  finally show ?thesis .
qed

lemma pawnDestinations_parts:
  "pawnDestinations pc state =
     pawnPush pc state @ pawnDouble pc state @ pawnCapture pc state 1 @ pawnCapture pc state (- 1)"
  by (simp only: pawnDestinations_def Let_def pawnPush_def pawnDouble_def pawnCapture_def
      add_uminus_conv_diff)

lemma forward_cases: "forward own = 1 \<or> forward own = - 1"
  by (simp add: forward_def)

lemma opponentOf_not_None: "opponentOf own \<noteq> None"
  by (simp add: opponentOf_def)

lemma no_target [simp]:
  "wf_board (state\<lparr>enPassantSquare := None\<rparr>) = wf_board state"
  "ownerAt (state\<lparr>enPassantSquare := None\<rparr>) r f = ownerAt state r f"
  "enPassant r f (state\<lparr>enPassantSquare := None\<rparr>) = False"
  by (simp_all add: wf_board_def ownerAt_def enPassant_def)

lemma pawn_parts_no_target:
  "pawnPush pc (state\<lparr>enPassantSquare := None\<rparr>) = pawnPush pc state"
  "pawnDouble pc (state\<lparr>enPassantSquare := None\<rparr>) = pawnDouble pc state"
  by (simp_all only: pawnPush_def pawnDouble_def no_target)

lemma pawn_parts_squares:
  "set (pawnPush pc state) \<subseteq> {(rank pc + forward (owner pc), file pc)}"
  "set (pawnDouble pc state) \<subseteq> {(rank pc + 2 * forward (owner pc), file pc)}"
  "set (pawnCapture pc state df) \<subseteq> {(rank pc + forward (owner pc), file pc + df)}"
  by (auto simp: pawnPush_def pawnDouble_def pawnCapture_def split: if_splits)

lemma pawnCapture_target:
  assumes "enPassantSquare state = Some (rank pc + forward (owner pc), file pc + df)"
  shows "pawnCapture pc state df = [(rank pc + forward (owner pc), file pc + df)]"
  using assms by (simp add: pawnCapture_def enPassant_def)

lemma pawnCapture_empty:
  assumes "\<not> onBoard (rank pc + forward (owner pc)) (file pc + df) \<or>
           ownerAt state (rank pc + forward (owner pc)) (file pc + df) = None"
    and "enPassantSquare state \<noteq> Some (rank pc + forward (owner pc), file pc + df)"
  shows "pawnCapture pc state df = []"
  using assms opponentOf_not_None [of "owner pc"]
  by (auto simp: pawnCapture_def enPassant_def split: option.splits)

lemma pawnCapture_other:
  assumes "enPassantSquare state \<noteq> Some (rank pc + forward (owner pc), file pc + df)"
  shows "pawnCapture pc (state\<lparr>enPassantSquare := None\<rparr>) df = pawnCapture pc state df"
  using assms by (auto simp: pawnCapture_def enPassant_def split: option.splits)

lemma en_passant_one_side:
  assumes "wf_board state" and "df = 1 \<or> df = - 1"
    and t: "t = (rank pc + forward (owner pc), file pc + df)"
    and ep: "enPassantSquare state = Some t" and em: "emptySquare state t"
  shows "\<exists>ms ms0. rules_p pc state = Inr ms \<and>
           rules_p pc (state\<lparr>enPassantSquare := None\<rparr>) = Inr ms0 \<and>
           t \<in> set ms \<and> t \<notin> set ms0 \<and> remove1 t ms = ms0"
proof -
  let ?s0 = "state\<lparr>enPassantSquare := None\<rparr>"
  let ?A = "pawnPush pc state" and ?B = "pawnDouble pc state"
  have w0: "wf_board ?s0" using assms(1) by simp
  have tA: "t \<notin> set ?A" using pawn_parts_squares(1) [of pc state] assms(2) t by auto
  have tB: "t \<notin> set ?B"
    using pawn_parts_squares(2) [of pc state] assms(2) t forward_cases [of "owner pc"] by auto
  have other: "enPassantSquare state \<noteq> Some (rank pc + forward (owner pc), file pc + (- df))"
    using ep t assms(2) by auto
  have tD: "t \<notin> set (pawnCapture pc state (- df))"
    using pawn_parts_squares(3) [of pc state "- df"] assms(2) t by auto
  have C: "pawnCapture pc state df = [t]" using pawnCapture_target ep t by simp
  have C0: "pawnCapture pc ?s0 df = []"
    using em t by (intro pawnCapture_empty) (simp_all add: emptySquare_def)
  have D0: "pawnCapture pc ?s0 (- df) = pawnCapture pc state (- df)"
    by (rule pawnCapture_other [OF other])
  from assms(2) show ?thesis
  proof
    assume d: "df = 1"
    have "rules_p pc state = Inr (?A @ ?B @ [t] @ pawnCapture pc state (- 1))"
      using C d by (simp add: rules_p_wf [OF assms(1)] pawnDestinations_parts)
    moreover have "rules_p pc ?s0 = Inr (?A @ ?B @ pawnCapture pc state (- 1))"
      using C0 D0 d by (simp add: rules_p_wf [OF w0] pawnDestinations_parts pawn_parts_no_target)
    moreover have "remove1 t (?A @ ?B @ [t] @ pawnCapture pc state (- 1))
        = ?A @ ?B @ pawnCapture pc state (- 1)"
      using tA tB by (simp add: remove1_append)
    ultimately show ?thesis using tA tB tD d by auto
  next
    assume d: "df = - 1"
    have D0': "pawnCapture pc ?s0 1 = pawnCapture pc state 1" using D0 d by simp
    have tD': "t \<notin> set (pawnCapture pc state 1)" using tD d by simp
    have "rules_p pc state = Inr (?A @ ?B @ pawnCapture pc state 1 @ [t])"
      using C d by (simp add: rules_p_wf [OF assms(1)] pawnDestinations_parts)
    moreover have "rules_p pc ?s0 = Inr (?A @ ?B @ pawnCapture pc state 1)"
      using C0 D0' d by (simp add: rules_p_wf [OF w0] pawnDestinations_parts pawn_parts_no_target)
    moreover have "remove1 t (?A @ ?B @ pawnCapture pc state 1 @ [t])
        = ?A @ ?B @ pawnCapture pc state 1"
      using tA tB tD' by (simp add: remove1_append)
    ultimately show ?thesis using tA tB tD' d by auto
  qed
qed

lemma empty_diagonal_not_target:
  assumes "wf_board state" and "df = 1 \<or> df = - 1"
    and sq: "sq = (rank pc + forward (owner pc), file pc + df)"
    and em: "emptySquare state sq" and ne: "enPassantSquare state \<noteq> Some sq"
  shows "\<exists>ms. rules_p pc state = Inr ms \<and> sq \<notin> set ms"
proof -
  have "pawnCapture pc state df = []"
    using em ne sq by (intro pawnCapture_empty) (simp_all add: emptySquare_def)
  moreover have "sq \<notin> set (pawnPush pc state)"
    using pawn_parts_squares(1) [of pc state] assms(2) sq by auto
  moreover have "sq \<notin> set (pawnDouble pc state)"
    using pawn_parts_squares(2) [of pc state] assms(2) sq by auto
  moreover have "sq \<notin> set (pawnCapture pc state (- df))"
    using pawn_parts_squares(3) [of pc state "- df"] assms(2) sq by auto
  ultimately have "sq \<notin> set (pawnDestinations pc state)"
    using assms(2) by (auto simp: pawnDestinations_parts)
  then show ?thesis by (simp add: rules_p_wf [OF assms(1)])
qed

text \<open>
  What the rule does for the two pushes: the square one step ahead is returned unless
  it is off the board or held by the opponent, and the square two steps ahead is
  returned from the starting rank unless the square one step ahead holds a piece.
\<close>

lemma single_push_iff:
  assumes "wf_board state"
  shows "\<exists>ms. rules_p pc state = Inr ms \<and>
     ((rank pc + forward (owner pc), file pc) \<in> set ms \<longleftrightarrow>
      onBoard (rank pc + forward (owner pc)) (file pc) \<and>
      ownerAt state (rank pc + forward (owner pc)) (file pc) \<noteq> opponentOf (owner pc))"
proof -
  let ?sq = "(rank pc + forward (owner pc), file pc)"
  have "?sq \<notin> set (pawnDouble pc state)"
    using pawn_parts_squares(2) [of pc state] forward_cases [of "owner pc"] by auto
  moreover have "?sq \<notin> set (pawnCapture pc state 1)" "?sq \<notin> set (pawnCapture pc state (- 1))"
    using pawn_parts_squares(3) [of pc state 1] pawn_parts_squares(3) [of pc state "- 1"]
    by auto
  ultimately have "?sq \<in> set (pawnDestinations pc state) \<longleftrightarrow> ?sq \<in> set (pawnPush pc state)"
    by (simp add: pawnDestinations_parts)
  then show ?thesis by (simp add: rules_p_wf [OF assms] pawnPush_def)
qed

lemma double_push_iff:
  assumes "wf_board state"
  shows "\<exists>ms. rules_p pc state = Inr ms \<and>
     ((rank pc + 2 * forward (owner pc), file pc) \<in> set ms \<longleftrightarrow>
      (forward (owner pc) = 1 \<and> rank pc = 1 \<or> forward (owner pc) = - 1 \<and> rank pc = 6) \<and>
      \<not> (onBoard (rank pc + forward (owner pc)) (file pc) \<and>
         ownerAt state (rank pc + forward (owner pc)) (file pc) \<noteq> None))"
proof -
  let ?sq = "(rank pc + 2 * forward (owner pc), file pc)"
  have "?sq \<notin> set (pawnPush pc state)"
    using pawn_parts_squares(1) [of pc state] forward_cases [of "owner pc"] by auto
  moreover have "?sq \<notin> set (pawnCapture pc state 1)" "?sq \<notin> set (pawnCapture pc state (- 1))"
    using pawn_parts_squares(3) [of pc state 1] pawn_parts_squares(3) [of pc state "- 1"]
    by auto
  ultimately have "?sq \<in> set (pawnDestinations pc state) \<longleftrightarrow> ?sq \<in> set (pawnDouble pc state)"
    by (simp add: pawnDestinations_parts)
  moreover have "?sq \<in> set (pawnDouble pc state) \<longleftrightarrow>
      (forward (owner pc) = 1 \<and> rank pc = 1 \<or> forward (owner pc) = - 1 \<and> rank pc = 6) \<and>
      \<not> (onBoard (rank pc + forward (owner pc)) (file pc) \<and>
         ownerAt state (rank pc + forward (owner pc)) (file pc) \<noteq> None)"
    using forward_cases [of "owner pc"] by (auto simp: pawnDouble_def)
  ultimately show ?thesis by (simp add: rules_p_wf [OF assms])
qed

text \<open>
  C1 at \<open>blockedPawn\<close>: the white pawn of rank 6, file 4 has the white knight of rank 5,
  file 4 in front of it, and the pawn rule returns that occupied square as the
  destination of the single push; the aggregator lists the move among White's.
\<close>

theorem single_push_onto_own_piece:
  "board blockedPawn ! 6 ! 4 = cellOf 6 4 CHR ''P'' \<and>
   ownerAt blockedPawn 5 4 = Some White \<and>
   rules_p (board blockedPawn ! 6 ! 4) blockedPawn = Inr [(5, 4)] \<and>
   getOptionsForPlayer blockedPawn White =
     Some (Inr [pieceMove CHR ''n'' 5 4 7 5, pieceMove CHR ''n'' 5 4 3 5,
                pieceMove CHR ''n'' 5 4 7 3, pieceMove CHR ''n'' 5 4 3 3,
                pieceMove CHR ''n'' 5 4 6 6, pieceMove CHR ''n'' 5 4 4 6,
                pieceMove CHR ''n'' 5 4 6 2, pieceMove CHR ''n'' 5 4 4 2,
                pieceMove CHR ''p'' 6 4 5 4,
                pieceMove CHR ''k'' 7 4 7 5, pieceMove CHR ''k'' 7 4 7 3,
                pieceMove CHR ''k'' 7 4 6 5, pieceMove CHR ''k'' 7 4 6 3])"
  by code_simp

text \<open>
  C2 at \<open>blockedDouble\<close>: the white pawn of rank 6, file 0 has an empty square in front
  of it and the black knight of rank 4, file 0 two squares ahead, and the pawn rule
  returns the knight's square as the destination of the double push; the aggregator
  lists the move among White's.
\<close>

theorem double_push_onto_occupied_square:
  "board blockedDouble ! 6 ! 0 = cellOf 6 0 CHR ''P'' \<and>
   ownerAt blockedDouble 5 0 = None \<and>
   ownerAt blockedDouble 4 0 = Some Black \<and>
   rules_p (board blockedDouble ! 6 ! 0) blockedDouble = Inr [(5, 0), (4, 0)] \<and>
   getOptionsForPlayer blockedDouble White =
     Some (Inr [pieceMove CHR ''p'' 6 0 5 0, pieceMove CHR ''p'' 6 0 4 0,
                pieceMove CHR ''k'' 7 4 6 4, pieceMove CHR ''k'' 7 4 7 5,
                pieceMove CHR ''k'' 7 4 7 3, pieceMove CHR ''k'' 7 4 6 5,
                pieceMove CHR ''k'' 7 4 6 3])"
  by code_simp

section \<open>En passant\<close>

text \<open>
  C8. On a grid of eight by eight, for a pawn and either of its two forward-diagonal
  squares: if that square is the en-passant square of the position and is empty, the
  pawn rule returns it exactly once, and what it returns is otherwise what it returns
  for the same position without en-passant square, where that square is not returned;
  and an empty forward-diagonal square that is not the en-passant square is not returned.
\<close>

theorem en_passant_extra_destination:
  assumes "wf_board state"
  shows "(\<forall>df t. (df = 1 \<or> df = - 1) \<and>
            t = (rank pc + forward (owner pc), file pc + df) \<and>
            enPassantSquare state = Some t \<and> emptySquare state t \<longrightarrow>
            (\<exists>ms ms0. rules_p pc state = Inr ms \<and>
               rules_p pc (state\<lparr>enPassantSquare := None\<rparr>) = Inr ms0 \<and>
               t \<in> set ms \<and> t \<notin> set ms0 \<and> remove1 t ms = ms0)) \<and>
         (\<forall>df sq. (df = 1 \<or> df = - 1) \<and>
            sq = (rank pc + forward (owner pc), file pc + df) \<and>
            emptySquare state sq \<and> enPassantSquare state \<noteq> Some sq \<longrightarrow>
            (\<exists>ms. rules_p pc state = Inr ms \<and> sq \<notin> set ms))"
  using en_passant_one_side [OF assms] empty_diagonal_not_target [OF assms] by blast

text \<open>
  The black pawn of rank 4, file 3 in \<open>enPassantPosition\<close>: the en-passant square
  \<open>(5, 4)\<close> is one of its destinations, the empty square \<open>(5, 2)\<close> is not.
\<close>

theorem en_passant_witness:
  "wf_board enPassantPosition \<and>
   board enPassantPosition ! 4 ! 3 = cellOf 4 3 CHR ''p'' \<and>
   enPassantSquare enPassantPosition = Some (5, 4) \<and>
   emptySquare enPassantPosition (5, 4) \<and>
   emptySquare enPassantPosition (5, 2) \<and>
   rules_p (cellOf 4 3 CHR ''p'') enPassantPosition = Inr [(5, 3), (5, 4)] \<and>
   rules_p (cellOf 4 3 CHR ''p'') (enPassantPosition\<lparr>enPassantSquare := None\<rparr>) = Inr [(5, 3)] \<and>
   (\<exists>ms ms0. rules_p (cellOf 4 3 CHR ''p'') enPassantPosition = Inr ms \<and>
      rules_p (cellOf 4 3 CHR ''p'') (enPassantPosition\<lparr>enPassantSquare := None\<rparr>) = Inr ms0 \<and>
      (5, 4) \<in> set ms \<and> (5, 4) \<notin> set ms0 \<and> remove1 (5, 4) ms = ms0) \<and>
   (\<exists>ms. rules_p (cellOf 4 3 CHR ''p'') enPassantPosition = Inr ms \<and> (5, 2) \<notin> set ms)"
proof -
  let ?pc = "cellOf 4 3 CHR ''p''"
  have w: "wf_board enPassantPosition" by (rule wf_examples)
  have c: "board enPassantPosition ! 4 ! 3 = ?pc" by code_simp
  have ep: "enPassantSquare enPassantPosition = Some (5, 4)"
    by (simp add: enPassantPosition_def)
  have e: "emptySquare enPassantPosition (5, 4)" "emptySquare enPassantPosition (5, 2)"
    by code_simp+
  have v: "rules_p ?pc enPassantPosition = Inr [(5, 3), (5, 4)]"
    "rules_p ?pc (enPassantPosition\<lparr>enPassantSquare := None\<rparr>) = Inr [(5, 3)]"
    by code_simp+
  have sq: "(5, 4) = (rank ?pc + forward (owner ?pc), file ?pc + 1)"
    "(5, 2) = (rank ?pc + forward (owner ?pc), file ?pc + (- 1))"
    by (simp_all add: cellOf_def forward_def)
  note th = en_passant_extra_destination [OF w, of ?pc]
  from th sq(1) ep e(1)
  have 1: "\<exists>ms ms0. rules_p ?pc enPassantPosition = Inr ms \<and>
      rules_p ?pc (enPassantPosition\<lparr>enPassantSquare := None\<rparr>) = Inr ms0 \<and>
      (5, 4) \<in> set ms \<and> (5, 4) \<notin> set ms0 \<and> remove1 (5, 4) ms = ms0"
    by blast
  have ne: "enPassantSquare enPassantPosition \<noteq> Some (5, 2)" by (simp add: ep)
  from th sq(2) ne e(2)
  have 2: "\<exists>ms. rules_p ?pc enPassantPosition = Inr ms \<and> (5, 2) \<notin> set ms"
    by blast
  from w c ep e v 1 2 show ?thesis by blast
qed


section \<open>The castling rule on a grid of eight by eight\<close>

lemma castle_generic:
  "andThen (if K then andThen (Inr b5) (\<lambda>b5. if b5 then Inr False
                                else andThen (Inr b6) (\<lambda>b6. Inr (\<not> b6)))
            else Inr False) (\<lambda>kingside.
     let moves1 = (if kingside then ks else []) in
     andThen (if Q then andThen (Inr b1) (\<lambda>b1. if b1 then Inr False
                      else andThen (Inr b2) (\<lambda>b2. if b2 then Inr False
                      else andThen (Inr b3) (\<lambda>b3. Inr (\<not> b3))))
              else Inr False) (\<lambda>queenside.
     (Inr (if queenside then moves1 @ qs else moves1) :: error + 'a list)))
   = Inr ((if K \<and> \<not> b5 \<and> \<not> b6 then ks else []) @
          (if Q \<and> \<not> b1 \<and> \<not> b2 \<and> \<not> b3 then qs else []))"
  by (simp add: andThen_def Let_def)

lemma occupied_home:
  "0 \<le> f \<Longrightarrow> f \<le> 7 \<Longrightarrow>
   (\<not> (onBoard (homeRank player) f \<and> ownerAt state (homeRank player) f \<noteq> None))
   = (ownerAt state (homeRank player) f = None)"
  by (simp add: onBoard_def homeRank_def)

lemma getCastlingOptions_wf:
  assumes "wf_board state"
  shows "getCastlingOptions player state =
     Inr ((if k (castling state player) \<and> ownerAt state (homeRank player) 5 = None
              \<and> ownerAt state (homeRank player) 6 = None
           then [castleMove CHR ''k'' (homeRank player) 4 6,
                 castleMove CHR ''r'' (homeRank player) 7 5]
           else []) @
          (if q (castling state player) \<and> ownerAt state (homeRank player) 1 = None
              \<and> ownerAt state (homeRank player) 2 = None
              \<and> ownerAt state (homeRank player) 3 = None
           then [castleMove CHR ''k'' (homeRank player) 4 2,
                 castleMove CHR ''r'' (homeRank player) 0 3]
           else []))"
  unfolding getCastlingOptions_def homeRank_def [symmetric] castleMove_def [symmetric]
  apply (subst Let_def, subst Let_def)
  apply (simp only: pieceAt_wf [OF assms])
  apply (subst castle_generic)
  apply (simp only: occupied_home)
  done

text \<open>
  C5. On a grid of eight by eight the castling rule returns, for each wing, either both
  records of the wing or none: the kingside pair (king from file 4 to file 6, rook from
  file 7 to file 5) exactly when the flag \<open>k\<close> of the side is set and the squares of
  files 5 and 6 on the home rank are unoccupied, followed by the queenside pair (king
  from file 4 to file 2, rook from file 0 to file 3) exactly when the flag \<open>q\<close> is set
  and the squares of files 1, 2 and 3 are unoccupied; every record carries
  \<^verbatim>\<open>castle: true\<close>.
\<close>

theorem castling_pair_iff_rights_and_empty:
  assumes "wf_board state"
  shows "getCastlingOptions player state =
     Inr ((if k (castling state player) \<and> ownerAt state (homeRank player) 5 = None
              \<and> ownerAt state (homeRank player) 6 = None
           then [castleMove CHR ''k'' (homeRank player) 4 6,
                 castleMove CHR ''r'' (homeRank player) 7 5]
           else []) @
          (if q (castling state player) \<and> ownerAt state (homeRank player) 1 = None
              \<and> ownerAt state (homeRank player) 2 = None
              \<and> ownerAt state (homeRank player) 3 = None
           then [castleMove CHR ''k'' (homeRank player) 4 2,
                 castleMove CHR ''r'' (homeRank player) 0 3]
           else []))"
  using assms by (rule getCastlingOptions_wf)

text \<open>White castles on both wings in the position \<open>castlePosition\<close>.\<close>

theorem castling_pair_witness:
  "wf_board castlePosition \<and>
   getCastlingOptions White castlePosition =
     Inr [castleMove CHR ''k'' 7 4 6, castleMove CHR ''r'' 7 7 5,
          castleMove CHR ''k'' 7 4 2, castleMove CHR ''r'' 7 0 3]"
proof -
  have w: "wf_board castlePosition" by (rule wf_examples)
  have e: "ownerAt castlePosition 7 5 = None" "ownerAt castlePosition 7 6 = None"
    "ownerAt castlePosition 7 1 = None" "ownerAt castlePosition 7 2 = None"
    "ownerAt castlePosition 7 3 = None"
    unfolding castlePosition_def by (simp_all add: board_eval)
  have c: "k (castling castlePosition White)" "q (castling castlePosition White)"
    by (simp_all add: castlePosition_def allRights_def)
  from castling_pair_iff_rights_and_empty [OF w, of White] e c w
  show ?thesis by (simp add: homeRank_def)
qed

section \<open>Leapers on a grid of eight by eight\<close>

lemma filterE_pure:
  "(\<And>x. x \<in> set xs \<Longrightarrow> P x = Inr (Q x)) \<Longrightarrow> filterE P xs = Inr (filter Q xs)"
  by (induction xs) (simp_all add: andThen_def)

lemma leaper_wf:
  assumes "wf_board state" and "map parseDir (symmetricalDirs dirs) = map Some offs"
  shows "leaper dirs pc state =
     Inr (map (\<lambda>d. (rank pc + fst d, file pc + snd d)) (filter (leaperTarget pc state) offs))"
proof -
  let ?P = "\<lambda>dir. case dir of None \<Rightarrow> Inr False
              | Some d \<Rightarrow> movableSpace (rank pc + fst d) (file pc + snd d) (owner pc) state"
  let ?Q = "\<lambda>dir. case dir of None \<Rightarrow> False | Some d \<Rightarrow> leaperTarget pc state d"
  have "filterE ?P (map Some offs) = Inr (filter ?Q (map Some offs))"
    by (rule filterE_pure) (auto simp: movableSpace_wf [OF assms(1)] leaperTarget_def)
  moreover have "filter ?Q (map Some offs) = map Some (filter (leaperTarget pc state) offs)"
    by (simp add: filter_map comp_def)
  ultimately show ?thesis
    unfolding leaper_def Let_def assms(2)
    by (simp add: andThen_def comp_def)
qed

lemma leaper_any_dirs:
  assumes "wf_board state"
  shows "\<exists>ms. leaper dirs pc state = Inr ms"
proof -
  let ?P = "\<lambda>dir. case dir of None \<Rightarrow> Inr False
              | Some d \<Rightarrow> movableSpace (rank pc + fst d) (file pc + snd d) (owner pc) state"
  let ?Q = "\<lambda>dir. case dir of None \<Rightarrow> False | Some d \<Rightarrow> leaperTarget pc state d"
  have "filterE ?P xs = Inr (filter ?Q xs)" for xs
    by (rule filterE_pure) (auto simp: movableSpace_wf [OF assms(1)] leaperTarget_def split: option.splits)
  then show ?thesis unfolding leaper_def Let_def by (simp add: andThen_def)
qed

lemma knight_offsets:
  "map parseDir (symmetricalDirs [(2, 1), (1, 2)]) =
   map Some [(2, 1), (- 2, 1), (2, - 1), (- 2, - 1), (1, 2), (- 1, 2), (1, - 2), (- 1, - 2)]"
  by code_simp

lemma king_offsets:
  "map parseDir (symmetricalDirs [(1, 0), (0, 1), (1, 1)]) =
   map Some [(1, 0), (- 1, 0), (0, 1), (0, - 1), (1, 1), (- 1, 1), (1, - 1), (- 1, - 1)]"
  by code_simp

lemma rook_offsets:
  "map parseDir (symmetricalDirs [(1, 0), (0, 1)]) =
   map Some [(1, 0), (- 1, 0), (0, 1), (0, - 1)]"
  by code_simp

lemma bishop_offsets:
  "map parseDir (symmetricalDirs [(1, 1)]) =
   map Some [(1, 1), (- 1, 1), (1, - 1), (- 1, - 1)]"
  by code_simp

lemma leaper_properties:
  fixes pc :: cell and state :: state
  assumes "distinct offs" "(0, 0) \<notin> set offs"
  defines "ms \<equiv> map (\<lambda>d. (rank pc + fst d, file pc + snd d)) (filter (leaperTarget pc state) offs)"
  shows "length ms \<le> length offs" "distinct ms"
    "\<forall>sq \<in> set ms. onBoard (fst sq) (snd sq) \<and> sq \<noteq> (rank pc, file pc)"
proof -
  show "length ms \<le> length offs" by (simp add: ms_def)
  have "inj_on (\<lambda>d. (rank pc + fst d, file pc + snd d)) A" for A :: "(int \<times> int) set"
    by (auto simp: inj_on_def)
  with assms(1) show "distinct ms" by (simp add: ms_def distinct_map)
  show "\<forall>sq \<in> set ms. onBoard (fst sq) (snd sq) \<and> sq \<noteq> (rank pc, file pc)"
    using assms(2) by (auto simp: ms_def leaperTarget_def)
qed


text \<open>
  C10. On a grid of eight by eight the knight and the king rules are the leaper on the
  directions of the rule table. The set of strings that mirrors these directions holds
  eight strings, pairwise distinct, which read back as eight pairwise distinct offsets,
  none of them \<open>(0, 0)\<close> and none unreadable. For every piece the rule returns at most
  eight squares, pairwise distinct, all on the board and none the square of the piece.
\<close>

theorem leaper_destinations_distinct:
  assumes "wf_board state"
    and "(c = CHR ''n'' \<and> dirs = [(2, 1), (1, 2)]) \<or>
         (c = CHR ''k'' \<and> dirs = [(1, 0), (0, 1), (1, 1)])"
  shows "rules c = Some (\<lambda>pc state. Some (leaper dirs pc state)) \<and>
     distinct (symmetricalDirs dirs) \<and>
     (\<exists>offs. map parseDir (symmetricalDirs dirs) = map Some offs \<and>
             length offs = 8 \<and> distinct offs \<and> (0, 0) \<notin> set offs) \<and>
     (\<exists>ms. leaper dirs pc state = Inr ms \<and> length ms \<le> 8 \<and> distinct ms \<and>
           (\<forall>sq \<in> set ms. onBoard (fst sq) (snd sq) \<and> sq \<noteq> (rank pc, file pc)))"
proof -
  from assms(2) have r: "rules c = Some (\<lambda>pc state. Some (leaper dirs pc state))"
    by (auto simp: rules_def)
  have dn: "distinct (symmetricalDirs [(2, 1), (1, 2)])" by code_simp
  have dk: "distinct (symmetricalDirs [(1, 0), (0, 1), (1, 1)])" by code_simp
  from assms(2) dn dk have d: "distinct (symmetricalDirs dirs)" by auto
  have "\<exists>offs. map parseDir (symmetricalDirs dirs) = map Some offs \<and>
             length offs = 8 \<and> distinct offs \<and> (0, 0) \<notin> set offs"
  proof -
    from assms(2) consider "dirs = [(2, 1), (1, 2)]" | "dirs = [(1, 0), (0, 1), (1, 1)]"
      by blast
    then show ?thesis
    proof cases
      case 1
      show ?thesis unfolding 1 knight_offsets
        by (rule exI [of _ "[(2, 1), (- 2, 1), (2, - 1), (- 2, - 1),
                             (1, 2), (- 1, 2), (1, - 2), (- 1, - 2)]"]) simp
    next
      case 2
      show ?thesis unfolding 2 king_offsets
        by (rule exI [of _ "[(1, 0), (- 1, 0), (0, 1), (0, - 1),
                             (1, 1), (- 1, 1), (1, - 1), (- 1, - 1)]"]) simp
    qed
  qed
  then obtain offs :: "(int \<times> int) list"
    where o: "map parseDir (symmetricalDirs dirs) = map Some offs"
      and p: "length offs = 8" "distinct offs" "(0, 0) \<notin> set offs"
    by blast
  let ?ms = "map (\<lambda>d. (rank pc + fst d, file pc + snd d)) (filter (leaperTarget pc state) offs)"
  have "leaper dirs pc state = Inr ?ms" by (rule leaper_wf [OF assms(1) o])
  moreover from leaper_properties [OF p(2,3), of pc state] p(1)
  have "length ?ms \<le> 8" "distinct ?ms"
    "\<forall>sq \<in> set ?ms. onBoard (fst sq) (snd sq) \<and> sq \<noteq> (rank pc, file pc)"
    by simp_all
  ultimately have "\<exists>ms. leaper dirs pc state = Inr ms \<and> length ms \<le> 8 \<and> distinct ms \<and>
           (\<forall>sq \<in> set ms. onBoard (fst sq) (snd sq) \<and> sq \<noteq> (rank pc, file pc))"
    by blast
  with r d o p show ?thesis by blast
qed

text \<open>The knight of file 1 in the starting position has two destinations.\<close>

theorem leaper_destinations_witness:
  "wf_board startPosition \<and>
   board startPosition ! 7 ! 1 = cellOf 7 1 CHR ''N'' \<and>
   leaper [(2, 1), (1, 2)] (cellOf 7 1 CHR ''N'') startPosition = Inr [(5, 2), (5, 0)] \<and>
   (\<exists>ms. leaper [(2, 1), (1, 2)] (cellOf 7 1 CHR ''N'') startPosition = Inr ms \<and>
         length ms \<le> 8 \<and> distinct ms \<and>
         (\<forall>sq \<in> set ms. onBoard (fst sq) (snd sq) \<and> sq \<noteq> (7, 1)))"
proof -
  have w: "wf_board startPosition" by (rule wf_examples)
  have c: "board startPosition ! 7 ! 1 = cellOf 7 1 CHR ''N''" by code_simp
  have e: "leaper [(2, 1), (1, 2)] (cellOf 7 1 CHR ''N'') startPosition = Inr [(5, 2), (5, 0)]"
    by code_simp
  have rf: "rank (cellOf 7 1 CHR ''N'') = 7" "file (cellOf 7 1 CHR ''N'') = 1"
    by (simp_all add: cellOf_def)
  from leaper_destinations_distinct [OF w, of "CHR ''n''" "[(2, 1), (1, 2)]" "cellOf 7 1 CHR ''N''"]
  have "\<exists>ms. leaper [(2, 1), (1, 2)] (cellOf 7 1 CHR ''N'') startPosition = Inr ms \<and>
         length ms \<le> 8 \<and> distinct ms \<and>
         (\<forall>sq \<in> set ms. onBoard (fst sq) (snd sq) \<and> sq \<noteq> (7, 1))"
    unfolding rf by blast
  with w c e show ?thesis by blast
qed


section \<open>Riders on a grid of eight by eight\<close>

lemma walk_cond_wf:
  assumes "wf_board state"
  shows "(if onBoard (fst pos) (snd pos)
          then andThen (pieceAt (fst pos) (snd pos) state) (\<lambda>b. Inr (\<not> b))
          else Inr False) = Inr (emptySquare state pos)"
  by (simp add: pieceAt_wf [OF assms] andThen_def emptySquare_def)

lemma walk_step:
  assumes "wf_board state"
  shows "walk state d pos spaces =
     (if emptySquare state pos
      then walk state d (fst pos + fst d, snd pos + snd d) (spaces @ [pos])
      else Some (Inr (pos, spaces)))"
  by (subst walk.simps) (simp add: walk_cond_wf [OF assms] Let_def)

lemma walk_ray:
  assumes "wf_board state"
  shows "\<exists>sq \<in> set (rayFrom pos d n). \<not> emptySquare state sq \<Longrightarrow>
     walk state d pos spaces =
       Some (Inr (hd (dropWhile (emptySquare state) (rayFrom pos d n)),
                  spaces @ takeWhile (emptySquare state) (rayFrom pos d n)))"
proof (induction n arbitrary: pos spaces)
  case 0
  then show ?case by simp
next
  case (Suc n)
  show ?case
  proof (cases "emptySquare state pos")
    case True
    with Suc.prems have "\<exists>sq \<in> set (rayFrom (fst pos + fst d, snd pos + snd d) d n). \<not> emptySquare state sq"
      by auto
    from Suc.IH [OF this] True show ?thesis
      by (subst walk_step [OF assms]) simp
  next
    case False
    then show ?thesis by (subst walk_step [OF assms]) simp
  qed
qed

lemma rayFrom_nth:
  "i < n \<Longrightarrow> rayFrom pos d n ! i = (fst pos + int i * fst d, snd pos + int i * snd d)"
proof (induction n arbitrary: pos i)
  case 0
  then show ?case by simp
next
  case (Suc n)
  then show ?case by (cases i) (simp_all add: algebra_simps)
qed

lemma length_rayFrom [simp]: "length (rayFrom pos d n) = n"
  by (induction n arbitrary: pos) simp_all

lemma off_board_after_eight:
  assumes "onBoard r f" "d \<noteq> (0, 0)"
  shows "\<not> onBoard (r + 8 * fst d) (f + 8 * snd d)"
  using assms by (cases d) (auto simp: onBoard_def)

lemma ray_leaves_board:
  assumes "d \<noteq> (0, 0)"
  shows "\<exists>sq \<in> set (rayFrom pos d 9). \<not> emptySquare state sq"
proof (cases "onBoard (fst pos) (snd pos)")
  case True
  have "rayFrom pos d 9 ! 8 \<in> set (rayFrom pos d 9)" by (rule nth_mem) simp
  moreover have "\<not> emptySquare state (rayFrom pos d 9 ! 8)"
    using off_board_after_eight [OF True assms] by (simp add: rayFrom_nth emptySquare_def)
  ultimately show ?thesis by blast
next
  case False
  have "rayFrom pos d 9 ! 0 \<in> set (rayFrom pos d 9)" by (rule nth_mem) simp
  moreover have "\<not> emptySquare state (rayFrom pos d 9 ! 0)"
    using False by (simp add: rayFrom_nth emptySquare_def)
  ultimately show ?thesis by blast
qed

lemma walk_returns:
  assumes "wf_board state" "d \<noteq> (0, 0)"
  shows "\<exists>res. walk state d pos spaces = Some (Inr res)"
  using walk_ray [OF assms(1) ray_leaves_board [OF assms(2)]] by blast

lemma raySquares_blocked:
  assumes "onBoard r f" "d \<noteq> (0, 0)"
  shows "\<exists>sq \<in> set (raySquares r f d). \<not> emptySquare state sq"
proof -
  have m: "raySquares r f d ! 7 \<in> set (raySquares r f d)"
    by (rule nth_mem) (simp add: raySquares_def)
  have "raySquares r f d ! 7 = (r + 8 * fst d, f + 8 * snd d)"
    by (simp add: raySquares_def rayFrom_nth algebra_simps)
  with off_board_after_eight [OF assms] have "\<not> emptySquare state (raySquares r f d ! 7)"
    by (simp add: emptySquare_def)
  with m show ?thesis by blast
qed

lemma getAllSpacesInDir_wf:
  assumes "wf_board state" "onBoard r f" "d \<noteq> (0, 0)"
  shows "getAllSpacesInDir state r f opp (Some d) = Some (Inr (sliderRay state r f opp d))"
proof -
  let ?ray = "raySquares r f d"
  let ?E = "emptySquare state"
  have b: "\<exists>sq \<in> set ?ray. \<not> ?E sq" by (rule raySquares_blocked [OF assms(2,3)])
  then have ne: "dropWhile ?E ?ray \<noteq> []" by (simp add: dropWhile_eq_Nil_conv)
  then have t1: "take (Suc 0) (dropWhile ?E ?ray) = [hd (dropWhile ?E ?ray)]"
    by (cases "dropWhile ?E ?ray") simp_all
  have w: "walk state d (r + fst d, f + snd d) [] =
      Some (Inr (hd (dropWhile ?E ?ray), takeWhile ?E ?ray))"
    using walk_ray [OF assms(1), of "(r + fst d, f + snd d)" d 8 "[]"] b
    by (simp add: raySquares_def)
  show ?thesis
    unfolding getAllSpacesInDir_def sliderRay_def
    by (simp add: w andThenC_simps ownedPieceAt_wf [OF assms(1)] andThen_def t1 Let_def
        heldBy_def)
qed

lemma reduceConcat_pure:
  "(\<And>x. x \<in> set xs \<Longrightarrow> g x = Some (Inr (h x))) \<Longrightarrow>
   reduceConcat g arr xs = Some (Inr (arr @ concat (map h xs)))"
  by (induction xs arbitrary: arr) (simp_all add: andThenC_simps)

lemma rider_wf:
  assumes "wf_board state" "onBoard (rank pc) (file pc)"
    and "map parseDir (symmetricalDirs dirs) = map Some offs" and "(0, 0) \<notin> set offs"
  shows "rider dirs pc state =
     Some (Inr (concat (map (sliderRay state (rank pc) (file pc) (opponentOf (owner pc))) offs)))"
proof -
  have g: "getAllSpacesInDir state (rank pc) (file pc) (opponentOf (owner pc)) x =
      Some (Inr (sliderRay state (rank pc) (file pc) (opponentOf (owner pc)) (the x)))"
    if "x \<in> set (map Some offs)" for x
  proof -
    from that obtain d where d: "x = Some d" "d \<in> set offs" by auto
    with assms(4) have "d \<noteq> (0, 0)" by auto
    from getAllSpacesInDir_wf [OF assms(1,2) this] d show ?thesis by simp
  qed
  have "reduceConcat (getAllSpacesInDir state (rank pc) (file pc) (opponentOf (owner pc))) []
          (map Some offs)
        = Some (Inr ([] @ concat (map (\<lambda>x. sliderRay state (rank pc) (file pc)
              (opponentOf (owner pc)) (the x)) (map Some offs))))"
    by (rule reduceConcat_pure) (rule g)
  then show ?thesis
    unfolding rider_def Let_def opponentOf_def [symmetric] assms(3)
    by (simp add: comp_def)
qed


lemma distinct_rayFrom:
  assumes "d \<noteq> (0, 0)"
  shows "distinct (rayFrom pos d n)"
proof -
  have "rayFrom pos d n ! i \<noteq> rayFrom pos d n ! j" if "i < n" "j < n" "i \<noteq> j" for i j
    using that assms by (cases d) (auto simp: rayFrom_nth)
  then show ?thesis by (simp add: distinct_conv_nth)
qed

lemma sliderRay_squares:
  assumes "sq \<in> set (sliderRay state r f opp d)"
  shows "onBoard (fst sq) (snd sq) \<and>
         (ownerAt state (fst sq) (snd sq) = None \<or> ownerAt state (fst sq) (snd sq) = opp)"
proof -
  from assms consider "sq \<in> set (takeWhile (emptySquare state) (raySquares r f d))"
    | "heldBy state opp sq"
    by (auto simp: sliderRay_def Let_def)
  then show ?thesis
  proof cases
    case 1
    then have "emptySquare state sq" by (rule set_takeWhileD [THEN conjunct2])
    then show ?thesis by (simp add: emptySquare_def)
  next
    case 2
    then show ?thesis by (simp add: heldBy_def)
  qed
qed

lemma sliderRay_prefix:
  "set (sliderRay state r f opp d) \<subseteq>
   set (take (Suc (length (takeWhile (emptySquare state) (raySquares r f d)))) (raySquares r f d))"
proof -
  let ?E = "emptySquare state" and ?ray = "raySquares r f d"
  let ?n = "length (takeWhile ?E ?ray)"
  have s: "set (sliderRay state r f opp d) \<subseteq>
      set (takeWhile ?E ?ray) \<union> set (take 1 (dropWhile ?E ?ray))"
    by (auto simp: sliderRay_def Let_def)
  have a: "set (takeWhile ?E ?ray) = set (take ?n ?ray)"
    by (rule arg_cong [OF takeWhile_eq_take])
  have b: "set (take 1 (dropWhile ?E ?ray)) = set (take 1 (drop ?n ?ray))"
    by (rule arg_cong [where f = "\<lambda>xs. set (take 1 xs)", OF dropWhile_eq_drop])
  have "take (?n + 1) ?ray = take ?n ?ray @ take 1 (drop ?n ?ray)" by (rule take_add)
  then have c: "set (take (Suc ?n) ?ray) = set (take ?n ?ray) \<union> set (take 1 (drop ?n ?ray))"
    by simp
  from s show ?thesis unfolding a b c .
qed

lemma sliderRay_not_beyond:
  assumes "d \<noteq> (0, 0)" "i < j" "j < 8" "\<not> emptySquare state (raySquares r f d ! i)"
  shows "raySquares r f d ! j \<notin> set (sliderRay state r f opp d)"
proof
  let ?E = "emptySquare state" and ?ray = "raySquares r f d"
  let ?n = "length (takeWhile ?E ?ray)"
  have len: "length ?ray = 8" by (simp add: raySquares_def)
  have dist: "distinct ?ray" unfolding raySquares_def by (rule distinct_rayFrom [OF assms(1)])
  have "?n \<le> i"
  proof (rule ccontr)
    assume "\<not> ?n \<le> i"
    then have "i < ?n" by simp
    then have "?E (takeWhile ?E ?ray ! i)" by (metis nth_mem set_takeWhileD)
    moreover have "takeWhile ?E ?ray ! i = ?ray ! i" using \<open>i < ?n\<close> by (rule takeWhile_nth)
    ultimately show False using assms(4) by simp
  qed
  assume "?ray ! j \<in> set (sliderRay state r f opp d)"
  with sliderRay_prefix have "?ray ! j \<in> set (take (Suc ?n) ?ray)" by blast
  then obtain m where m: "m < Suc ?n" "m < length ?ray" "?ray ! m = ?ray ! j"
    by (auto simp: in_set_conv_nth)
  with dist len assms(3) have "m = j" by (simp add: nth_eq_iff_index_eq)
  with m(1) \<open>?n \<le> i\<close> assms(2) show False by simp
qed


section \<open>Slider rays\<close>

lemma queen_offsets:
  "map parseDir (symmetricalDirs [(1, 0), (0, 1), (1, 1)]) =
   map Some [(1, 0), (- 1, 0), (0, 1), (0, - 1), (1, 1), (- 1, 1), (1, - 1), (- 1, - 1)]"
  by (rule king_offsets)

text \<open>
  C4. On a grid of eight by eight, for a rook, a bishop or a queen that stands on the
  board and has an owner, the rule of the piece is the rider on the four or eight
  mirrored directions \<open>offs\<close>, and it returns the concatenation over these directions
  of \<open>sliderRay\<close>: along each ray the empty squares before the first square that is
  occupied or off the board, and that square too exactly when it is on the board and
  held by the opponent. Every square returned is on the board and not held by the
  piece's own side, and no square of a ray behind a square that is not empty is
  returned for that ray.
\<close>

theorem slider_ray_stops_at_first_piece:
  assumes "wf_board state" and "onBoard (rank pc) (file pc)" and "owner pc \<noteq> None"
    and "(c = CHR ''r'' \<and> dirs = [(1, 0), (0, 1)] \<and>
            offs = [(1, 0), (- 1, 0), (0, 1), (0, - 1)]) \<or>
         (c = CHR ''b'' \<and> dirs = [(1, 1)] \<and>
            offs = [(1, 1), (- 1, 1), (1, - 1), (- 1, - 1)]) \<or>
         (c = CHR ''q'' \<and> dirs = [(1, 0), (0, 1), (1, 1)] \<and>
            offs = [(1, 0), (- 1, 0), (0, 1), (0, - 1), (1, 1), (- 1, 1), (1, - 1), (- 1, - 1)])"
  shows "rules c = Some (rider dirs) \<and>
     map parseDir (symmetricalDirs dirs) = map Some offs \<and>
     rider dirs pc state =
       Some (Inr (concat (map (sliderRay state (rank pc) (file pc) (opponentOf (owner pc)))
                            offs))) \<and>
     (\<forall>d \<in> set offs.
        \<forall>sq \<in> set (sliderRay state (rank pc) (file pc) (opponentOf (owner pc)) d).
          onBoard (fst sq) (snd sq) \<and> ownerAt state (fst sq) (snd sq) \<noteq> owner pc) \<and>
     (\<forall>d \<in> set offs. \<forall>i j.
        i < j \<and> j < 8 \<and> \<not> emptySquare state (raySquares (rank pc) (file pc) d ! i) \<longrightarrow>
        raySquares (rank pc) (file pc) d ! j
          \<notin> set (sliderRay state (rank pc) (file pc) (opponentOf (owner pc)) d))"
proof -
  from assms(4) have r: "rules c = Some (rider dirs)"
    by (auto simp: rules_def)
  from assms(4) have o: "map parseDir (symmetricalDirs dirs) = map Some offs"
    using rook_offsets bishop_offsets queen_offsets by auto
  from assms(4) have z: "(0, 0) \<notin> set offs" by auto
  have own: "ownerAt state (fst sq) (snd sq) \<noteq> owner pc"
    if "sq \<in> set (sliderRay state (rank pc) (file pc) (opponentOf (owner pc)) d)" for sq d
    using sliderRay_squares [OF that] assms(3) by (auto simp: opponentOf_def split: if_splits)
  have beyond: "raySquares (rank pc) (file pc) d ! j
          \<notin> set (sliderRay state (rank pc) (file pc) (opponentOf (owner pc)) d)"
    if "d \<in> set offs" "i < j" "j < 8" "\<not> emptySquare state (raySquares (rank pc) (file pc) d ! i)"
    for d i j
  proof -
    from that(1) z have "d \<noteq> (0, 0)" by auto
    from sliderRay_not_beyond [OF this that(2,3,4)] show ?thesis .
  qed
  from r o rider_wf [OF assms(1,2) o z] sliderRay_squares own beyond
  show ?thesis by blast
qed

text \<open>
  The white queen of \<open>queenPosition\<close>: up its file it stops on the black pawn, which it
  takes; along its rank it stops before the white pawn.
\<close>

theorem slider_ray_witness:
  "wf_board queenPosition \<and> onBoard 4 3 \<and>
   board queenPosition ! 4 ! 3 = cellOf 4 3 CHR ''Q'' \<and>
   rider [(1, 0), (0, 1), (1, 1)] (cellOf 4 3 CHR ''Q'') queenPosition =
     Some (Inr [(5, 3), (6, 3), (7, 3), (3, 3), (2, 3), (4, 4), (4, 2), (4, 1), (4, 0),
                (5, 4), (6, 5), (7, 6), (3, 4), (2, 5), (1, 6), (0, 7),
                (5, 2), (6, 1), (7, 0), (3, 2), (2, 1), (1, 0)])"
proof -
  let ?pc = "cellOf 4 3 CHR ''Q''"
  let ?offs = "[(1, 0), (- 1, 0), (0, 1), (0, - 1), (1, 1), (- 1, 1), (1, - 1), (- 1, - 1)] :: (int \<times> int) list"
  have w: "wf_board queenPosition" by (rule wf_examples)
  have b: "onBoard (rank ?pc) (file ?pc)" "owner ?pc \<noteq> None"
    by (simp_all add: cellOf_def onBoard_def)
  have c: "board queenPosition ! 4 ! 3 = ?pc" by code_simp
  have e: "concat (map (sliderRay queenPosition (rank ?pc) (file ?pc) (opponentOf (owner ?pc))) ?offs)
     = [(5, 3), (6, 3), (7, 3), (3, 3), (2, 3), (4, 4), (4, 2), (4, 1), (4, 0),
                (5, 4), (6, 5), (7, 6), (3, 4), (2, 5), (1, 6), (0, 7),
                (5, 2), (6, 1), (7, 0), (3, 2), (2, 1), (1, 0)]"
    by code_simp
  from slider_ray_stops_at_first_piece [OF w b, of "CHR ''q''" "[(1, 0), (0, 1), (1, 1)]" ?offs]
  have "rider [(1, 0), (0, 1), (1, 1)] ?pc queenPosition =
       Some (Inr (concat (map (sliderRay queenPosition (rank ?pc) (file ?pc) (opponentOf (owner ?pc))) ?offs)))"
    by blast
  with w c e show ?thesis by (simp add: onBoard_def)
qed


section \<open>The aggregator\<close>

text \<open>
  C3, as stated, fails: on the empty board with White's kingside flag set White owns no
  piece, and the aggregator returns the two records of the kingside castle.
\<close>

theorem no_pieces_counterexample:
  "playersPieces emptyKingside White = [] \<and>
   getOptionsForPlayer emptyKingside White =
     Some (Inr [castleMove CHR ''k'' 7 4 6, castleMove CHR ''r'' 7 7 5]) \<and>
   getOptionsForPlayer emptyKingside White \<noteq> Some (Inr [])"
  by code_simp

text \<open>
  C3, amended. If a side owns no piece on the board, the aggregator returns exactly what
  the castling rule returns for that side; the list is empty when neither castling flag
  of the side is set.
\<close>

theorem no_pieces_only_castling:
  assumes "playersPieces state player = []"
  shows "getOptionsForPlayer state player = Some (getCastlingOptions player state) \<and>
         (\<not> k (castling state player) \<and> \<not> q (castling state player) \<longrightarrow>
            getOptionsForPlayer state player = Some (Inr []))"
proof -
  have 1: "getOptionsForPlayer state player = Some (getCastlingOptions player state)"
    unfolding getOptionsForPlayer_def assms
    by (cases "getCastlingOptions player state") (simp_all add: andThenC_simps)
  have 2: "getCastlingOptions player state = Inr []"
    if "\<not> k (castling state player)" "\<not> q (castling state player)"
    using that by (simp add: getCastlingOptions_def andThen_def Let_def)
  from 1 2 show ?thesis by simp
qed

text \<open>White has neither a piece nor a castling right in \<open>loneBlackKing\<close>.\<close>

theorem no_pieces_witness:
  "playersPieces loneBlackKing White = [] \<and>
   \<not> k (castling loneBlackKing White) \<and> \<not> q (castling loneBlackKing White) \<and>
   getOptionsForPlayer loneBlackKing White = Some (Inr [])"
proof -
  have h: "playersPieces loneBlackKing White = []" by code_simp
  have r: "\<not> k (castling loneBlackKing White)" "\<not> q (castling loneBlackKing White)"
    by (simp_all add: loneBlackKing_def noRights_def)
  from no_pieces_only_castling [OF h] h r show ?thesis by blast
qed

text \<open>
  C6. In the starting position, with every castling flag set and no en-passant square,
  the aggregator returns for White exactly the twenty moves of \<open>startMoves\<close>: sixteen
  pawn moves (the single and the double push of each of the eight pawns), four knight
  moves, and no castling record.
\<close>

theorem start_position_twenty_moves:
  "getOptionsForPlayer startPosition White = Some (Inr startMoves) \<and>
   length startMoves = 20 \<and>
   length (filter (\<lambda>m. piece m = CHR ''p'') startMoves) = 16 \<and>
   length (filter (\<lambda>m. piece m = CHR ''n'') startMoves) = 4 \<and>
   filter (\<lambda>m. castle m \<noteq> None) startMoves = []"
  by code_simp

section \<open>No read outside the board\<close>

lemma boardCell_off:
  "wf_board state \<Longrightarrow> \<not> onBoard r f \<Longrightarrow> boardCell state r f = Inl TypeError"
  unfolding wf_board_def onBoard_def boardCell_def
  by (auto simp: Let_def)

lemma walk_no_error_aux:
  assumes "walk state d pos spaces = Some res"
  shows "wf_board state \<longrightarrow> (\<exists>v. res = Inr v)"
proof (rule walk.raw_induct [where P = "\<lambda>state d pos spaces res.
    wf_board state \<longrightarrow> (\<exists>v. res = Inr v)", OF _ assms], goal_cases)
  case (1 walk' state d pos spaces res)
  show ?case
  proof
    assume w: "wf_board state"
    show "\<exists>v. res = Inr v"
    proof (cases "emptySquare state pos")
      case True
      with 1(2) have eq: "walk' state d (fst pos + fst d, snd pos + snd d) (spaces @ [pos]) = Some res"
        by (simp add: walk_cond_wf [OF w] Let_def)
      from 1(1) eq w show ?thesis by blast
    next
      case False
      with 1(2) show ?thesis by (auto simp: walk_cond_wf [OF w] Let_def)
    qed
  qed
qed

lemma walk_no_error:
  assumes "walk state d pos spaces = Some res" and "wf_board state"
  shows "\<exists>v. res = Inr v"
  using walk_no_error_aux [OF assms(1)] assms(2) by blast

lemma getAllSpacesInDir_no_error:
  assumes "wf_board state"
  shows "getAllSpacesInDir state r f opp dir \<noteq> Some (Inl e)"
proof (cases dir)
  case None
  then show ?thesis by (simp add: getAllSpacesInDir_def)
next
  case (Some d)
  show ?thesis
  proof (cases "walk state d (r + fst d, f + snd d) []")
    case None
    then show ?thesis by (simp add: getAllSpacesInDir_def Some andThenC_simps)
  next
    case (Some res)
    from walk_no_error [OF this assms] obtain v where "res = Inr v" by blast
    with Some \<open>dir = Some d\<close> show ?thesis
      by (cases v) (simp add: getAllSpacesInDir_def andThenC_simps ownedPieceAt_wf [OF assms]
          andThen_def)
  qed
qed

lemma reduceConcat_no_error:
  assumes "\<And>x e. g x \<noteq> Some (Inl e)"
  shows "reduceConcat g arr xs \<noteq> Some (Inl e)"
proof (induction xs arbitrary: arr)
  case Nil
  show ?case by simp
next
  case (Cons x xs)
  show ?case
  proof (cases "g x")
    case None
    then show ?thesis by (simp add: andThenC_simps)
  next
    case (Some res)
    with assms [of x] obtain v where "g x = Some (Inr v)" by (cases res) auto
    with Cons show ?thesis by (simp add: andThenC_simps)
  qed
qed

lemma rider_no_error:
  assumes "wf_board state"
  shows "rider dirs pc state \<noteq> Some (Inl e)"
  unfolding rider_def Let_def
  by (rule reduceConcat_no_error) (rule getAllSpacesInDir_no_error [OF assms])

lemma getAllSpacesInDir_returns:
  assumes "wf_board state" "d \<noteq> (0, 0)"
  shows "\<exists>ms. getAllSpacesInDir state r f opp (Some d) = Some (Inr ms)"
proof -
  from walk_returns [OF assms] obtain res
    where "walk state d (r + fst d, f + snd d) [] = Some (Inr res)" by blast
  then show ?thesis
    by (cases res) (simp add: getAllSpacesInDir_def andThenC_simps ownedPieceAt_wf [OF assms(1)]
        andThen_def)
qed

lemma reduceConcat_returns:
  assumes "\<And>x. x \<in> set xs \<Longrightarrow> \<exists>ys. g x = Some (Inr ys)"
  shows "\<exists>zs. reduceConcat g arr xs = Some (Inr zs)"
  using assms
proof (induction xs arbitrary: arr)
  case Nil
  show ?case by simp
next
  case (Cons x xs)
  from Cons.prems [of x] obtain ys where "g x = Some (Inr ys)" by auto
  moreover from Cons.IH [of "arr @ ys"] Cons.prems
  have "\<exists>zs. reduceConcat g (arr @ ys) xs = Some (Inr zs)" by simp
  ultimately show ?case by (simp add: andThenC_simps)
qed

lemma rider_returns:
  assumes "wf_board state" and "map parseDir (symmetricalDirs dirs) = map Some offs"
    and "(0, 0) \<notin> set offs"
  shows "\<exists>ms. rider dirs pc state = Some (Inr ms)"
  unfolding rider_def Let_def assms(2)
proof (rule reduceConcat_returns)
  fix x assume "x \<in> set (map Some offs)"
  then obtain d where d: "x = Some d" "d \<in> set offs" by auto
  with assms(3) have "d \<noteq> (0, 0)" by auto
  from getAllSpacesInDir_returns [OF assms(1) this] d(1)
  show "\<exists>ys. getAllSpacesInDir state (rank pc) (file pc)
          (if owner pc = Some White then Some Black else Some White) x = Some (Inr ys)"
    by simp
qed

lemma slider_rules_return:
  assumes "wf_board state" and "c \<in> set ''rbq''"
  shows "\<exists>rule ms. rules c = Some rule \<and> rule pc state = Some (Inr ms)"
proof -
  have r: "\<exists>ms. rider [(1, 0), (0, 1)] pc state = Some (Inr ms)"
    by (rule rider_returns [OF assms(1) rook_offsets]) simp
  have b: "\<exists>ms. rider [(1, 1)] pc state = Some (Inr ms)"
    by (rule rider_returns [OF assms(1) bishop_offsets]) simp
  have q: "\<exists>ms. rider [(1, 0), (0, 1), (1, 1)] pc state = Some (Inr ms)"
    by (rule rider_returns [OF assms(1) king_offsets]) simp
  from assms(2) r b q show ?thesis by (auto simp: rules_def)
qed

text \<open>
  C7. On a grid of eight by eight whose en-passant square, if there is one, is on the
  board: \<open>pieceAt\<close>, \<open>ownedPieceAt\<close> and \<open>movableSpace\<close> return a truth value for
  all integer coordinates and never throw; for coordinates off the board they and
  \<open>onBoard\<close> and \<open>enPassant\<close> return false, although a read of the board there
  would throw; a read on the board succeeds. The leaper (on any directions), the pawn
  rule and the castling rule return a list and never throw, the rider never throws
  (on any directions), and the rook, bishop and queen rules return a list, for a piece
  with any coordinates.
\<close>

theorem geometry_predicates_total:
  assumes "wf_board state"
    and "\<forall>ep. enPassantSquare state = Some ep \<longrightarrow> onBoard (fst ep) (snd ep)"
  shows "(\<exists>b. pieceAt r f state = Inr b) \<and>
     (\<exists>b. ownedPieceAt r f player state = Inr b) \<and>
     (\<exists>b. movableSpace r f player state = Inr b) \<and>
     (\<not> (0 \<le> r \<and> r \<le> 7 \<and> 0 \<le> f \<and> f \<le> 7) \<longrightarrow>
        \<not> onBoard r f \<and> pieceAt r f state = Inr False \<and>
        ownedPieceAt r f player state = Inr False \<and>
        movableSpace r f player state = Inr False \<and>
        \<not> enPassant r f state \<and> boardCell state r f = Inl TypeError) \<and>
     (onBoard r f \<longrightarrow> (\<exists>c. boardCell state r f = Inr c)) \<and>
     (\<exists>ms. leaper dirs pc state = Inr ms) \<and>
     (\<exists>ms. rules_p pc state = Inr ms) \<and>
     (\<exists>ms. getCastlingOptions pl state = Inr ms) \<and>
     rider dirs pc state \<noteq> Some (Inl TypeError) \<and>
     (\<forall>c \<in> set ''rbq''. \<exists>rule ms. rules c = Some rule \<and> rule pc state = Some (Inr ms))"
proof -
  note w = assms(1)
  have off: "\<not> onBoard r f \<and> pieceAt r f state = Inr False \<and>
        ownedPieceAt r f player state = Inr False \<and>
        movableSpace r f player state = Inr False \<and>
        \<not> enPassant r f state \<and> boardCell state r f = Inl TypeError"
    if "\<not> (0 \<le> r \<and> r \<le> 7 \<and> 0 \<le> f \<and> f \<le> 7)"
  proof -
    from that have nb: "\<not> onBoard r f" by (auto simp: onBoard_def)
    have "\<not> enPassant r f state"
    proof
      assume "enPassant r f state"
      then have "enPassantSquare state = Some (r, f)"
        by (auto simp: enPassant_def split: option.splits)
      with assms(2) nb show False by auto
    qed
    with nb boardCell_off [OF w nb] show ?thesis
      by (simp add: pieceAt_def ownedPieceAt_def movableSpace_def)
  qed
  from off boardCell_wf [OF w] leaper_any_dirs [OF w] rules_p_wf [OF w]
    getCastlingOptions_wf [OF w] rider_no_error [OF w] slider_rules_return [OF w]
  show ?thesis
    by (simp add: pieceAt_wf [OF w] ownedPieceAt_wf [OF w] movableSpace_wf [OF w])
qed

text \<open>The starting position, the coordinates \<open>(-1, 8)\<close> and the rook of file 0.\<close>

theorem geometry_predicates_witness:
  "wf_board startPosition \<and> enPassantSquare startPosition = None \<and>
   pieceAt (- 1) 8 startPosition = Inr False \<and>
   ownedPieceAt (- 1) 8 (Some White) startPosition = Inr False \<and>
   movableSpace (- 1) 8 (Some White) startPosition = Inr False \<and>
   \<not> enPassant (- 1) 8 startPosition \<and>
   boardCell startPosition (- 1) 8 = Inl TypeError \<and>
   (\<exists>ms. leaper [(2, 1), (1, 2)] (cellOf 7 0 CHR ''R'') startPosition = Inr ms) \<and>
   (\<exists>ms. rules_p (cellOf 7 0 CHR ''R'') startPosition = Inr ms) \<and>
   (\<exists>ms. getCastlingOptions White startPosition = Inr ms) \<and>
   rider [(1, 0), (0, 1)] (cellOf 7 0 CHR ''R'') startPosition \<noteq> Some (Inl TypeError) \<and>
   (\<exists>rule ms. rules CHR ''r'' = Some rule \<and>
      rule (cellOf 7 0 CHR ''R'') startPosition = Some (Inr ms))"
proof -
  have w: "wf_board startPosition" by (rule wf_examples)
  have ep: "enPassantSquare startPosition = None" by (simp add: startPosition_def)
  then have h: "\<forall>ep. enPassantSquare startPosition = Some ep \<longrightarrow> onBoard (fst ep) (snd ep)"
    by simp
  have o: "\<not> (0 \<le> (- 1 :: int) \<and> (- 1 :: int) \<le> 7 \<and> 0 \<le> (8 :: int) \<and> (8 :: int) \<le> 7)" by simp
  have m: "CHR ''r'' \<in> set ''rbq''" by simp
  from geometry_predicates_total [OF w h, of "- 1" 8 "Some White" "[(2, 1), (1, 2)]"
      "cellOf 7 0 CHR ''R''" White] o
  have "pieceAt (- 1) 8 startPosition = Inr False \<and>
   ownedPieceAt (- 1) 8 (Some White) startPosition = Inr False \<and>
   movableSpace (- 1) 8 (Some White) startPosition = Inr False \<and>
   \<not> enPassant (- 1) 8 startPosition \<and>
   boardCell startPosition (- 1) 8 = Inl TypeError \<and>
   (\<exists>ms. leaper [(2, 1), (1, 2)] (cellOf 7 0 CHR ''R'') startPosition = Inr ms) \<and>
   (\<exists>ms. rules_p (cellOf 7 0 CHR ''R'') startPosition = Inr ms) \<and>
   (\<exists>ms. getCastlingOptions White startPosition = Inr ms)"
    by blast
  moreover from geometry_predicates_total [OF w h, of _ _ _ "[(1, 0), (0, 1)]"
      "cellOf 7 0 CHR ''R''"] m
  have "rider [(1, 0), (0, 1)] (cellOf 7 0 CHR ''R'') startPosition \<noteq> Some (Inl TypeError) \<and>
   (\<exists>rule ms. rules CHR ''r'' = Some rule \<and>
      rule (cellOf 7 0 CHR ''R'') startPosition = Some (Inr ms))"
    by blast
  ultimately show ?thesis using w ep by blast
qed


end
